theory Spec2Isabelle
  imports Complex_Main
begin

section \<open>UV oven controller: the super loop of main.py\<close>

text \<open>
  The controller is one MicroPython script: module-level globals, helper functions and a
  \<^verbatim>\<open>while True\<close> super loop. One pass of the loop body is the function \<open>tick\<close> below,
  from the globals before the pass to the globals after it. What the pass reads from the
  hardware (encoder, clock, lid switch, button, outcome of the file write) is its input.

  The LCD and the buzzer are write-only: no statement reads them back. Their calls are
  left out, except that an argument expression that can raise (a missing dict key, an index
  out of range) is kept as a check, since the exception ends the script. Python floats are
  taken as exact rationals.
\<close>

subsection \<open>Python values\<close>

datatype error = KeyError | IndexError | TypeError

definition bind_r :: "error + 'a \<Rightarrow> ('a \<Rightarrow> error + 'b) \<Rightarrow> error + 'b" where
  "bind_r m f = (case m of Inl e \<Rightarrow> Inl e | Inr x \<Rightarrow> f x)"

text \<open>\<^verbatim>\<open>xs[k]\<close> on a list: a negative index counts from the end, anything else out of range raises.\<close>

definition py_nth :: "'a list \<Rightarrow> int \<Rightarrow> error + 'a" where
  "py_nth xs k =
     (let n = int (length xs); j = (if k < 0 then n + k else k)
      in if 0 \<le> j \<and> j < n then Inr (xs ! nat j) else Inl IndexError)"

text \<open>\<^verbatim>\<open>m[key]\<close> on a dict, the entry being absent or present.\<close>

definition py_key :: "'a option \<Rightarrow> error + 'a" where
  "py_key e = (case e of None \<Rightarrow> Inl KeyError | Some x \<Rightarrow> Inr x)"

text \<open>The sign factor \<^verbatim>\<open>(1 if d > 0 else -1)\<close>.\<close>

definition dir :: "int \<Rightarrow> int" where
  "dir d = (if d > 0 then 1 else - 1)"

subsection \<open>Time units and limits\<close>

definition TIME_UNITS :: "(string \<times> int \<times> int \<times> int) list" where
  "TIME_UNITS = [(''min:sec'', 60, 1, 3600), (''hr:min'', 30, 1, 1440), (''sec:ms'', 1000, 100, 60000)]"

definition TIME_STEPS :: "int list" where
  "TIME_STEPS = [1, 1, 100]"

definition unit_name :: "string \<times> int \<times> int \<times> int \<Rightarrow> string" where
  "unit_name t = fst t"

definition unit_default :: "string \<times> int \<times> int \<times> int \<Rightarrow> int" where
  "unit_default t = fst (snd t)"

definition unit_min :: "string \<times> int \<times> int \<times> int \<Rightarrow> int" where
  "unit_min t = fst (snd (snd t))"

definition unit_max :: "string \<times> int \<times> int \<times> int \<Rightarrow> int" where
  "unit_max t = snd (snd (snd t))"

definition INT_MIN :: int where "INT_MIN = 0"
definition INT_MAX :: int where "INT_MAX = 100"
definition INT_STEP :: int where "INT_STEP = 1"

definition main_menu_items :: "string list" where
  "main_menu_items = [''Simple Mode'', ''Custom Mode'']"

definition custom_menu_items :: "string list" where
  "custom_menu_items = [''Load Program'', ''Create New'', ''Run Program'']"

definition C_MENU_LOAD :: int where "C_MENU_LOAD = 0"
definition C_MENU_CREATE :: int where "C_MENU_CREATE = 1"
definition C_MENU_RUN :: int where "C_MENU_RUN = 2"

definition C_LOAD_SELECT :: int where "C_LOAD_SELECT = 0"
definition C_LOAD_CONFIRM :: int where "C_LOAD_CONFIRM = 1"

subsection \<open>Programs and steps\<close>

text \<open>
  A step is the dict \<^verbatim>\<open>{"u": unit_idx, "v": value, "i": intensity}\<close>, a program the dict
  \<^verbatim>\<open>{"name": .., "loops": .., "steps": [..]}\<close>. The script builds both key by key, so
  each key is an optional field; the empty dict has none.
\<close>

record step =
  step_u :: "int option"
  step_v :: "int option"
  step_i :: "int option"

record program =
  prog_name :: "string option"
  prog_loops :: "int option"
  prog_steps :: "step list option"

definition empty_step :: step where
  "empty_step = \<lparr>step_u = None, step_v = None, step_i = None\<rparr>"

definition empty_program :: program where
  "empty_program = \<lparr>prog_name = None, prog_loops = None, prog_steps = None\<rparr>"

definition mk_step :: "int \<Rightarrow> int \<Rightarrow> int \<Rightarrow> step" where
  "mk_step un va inten = \<lparr>step_u = Some un, step_v = Some va, step_i = Some inten\<rparr>"

definition mk_program :: "string \<Rightarrow> int \<Rightarrow> step list \<Rightarrow> program" where
  "mk_program nm lp sts = \<lparr>prog_name = Some nm, prog_loops = Some lp, prog_steps = Some sts\<rparr>"

text \<open>\<^verbatim>\<open>get_duration_sec(step)\<close>: the runtime of a step in seconds.\<close>

definition get_duration_sec :: "step \<Rightarrow> error + rat" where
  "get_duration_sec st =
     bind_r (py_key (step_u st)) (\<lambda>idx.
     bind_r (py_key (step_v st)) (\<lambda>val.
       if idx = 0 then Inr (of_int val)
       else if idx = 1 then Inr (of_int (val * 60))
       else if idx = 2 then Inr (of_int val / 1000)
       else Inr 0))"

text \<open>The duty written to the PWM output for a step: \<^verbatim>\<open>step["i"] / 100.0\<close>.\<close>

definition step_duty :: "step \<Rightarrow> error + rat" where
  "step_duty st = bind_r (py_key (step_i st)) (\<lambda>inten. Inr (of_int inten / 100))"

subsection \<open>Adjusting a setting with the encoder\<close>

text \<open>
  The expressions the handlers evaluate when the encoder has moved (\<^verbatim>\<open>d != 0\<close>):
  \<^verbatim>\<open>(idx + (1 if d > 0 else -1)) % n\<close> for an index and
  \<^verbatim>\<open>max(lo, min(hi, val + step * (1 if d > 0 else -1)))\<close> for a value.
\<close>

definition wrap_idx :: "int \<Rightarrow> int \<Rightarrow> int \<Rightarrow> int" where
  "wrap_idx n idx d = (idx + dir d) mod n"

definition clamp_adj :: "int \<Rightarrow> int \<Rightarrow> int \<Rightarrow> int \<Rightarrow> int \<Rightarrow> int" where
  "clamp_adj lo hi stp val d = max lo (min hi (val + stp * dir d))"

text \<open>
  \<^verbatim>\<open>s_set_value\<close> after a turn in a set-time state, for the unit index the handler
  uses (\<^verbatim>\<open>TIME_STEPS[unit_idx]\<close> and \<^verbatim>\<open>TIME_UNITS[unit_idx]\<close> raise on a bad index).
\<close>

definition adjust_time :: "int \<Rightarrow> int \<Rightarrow> int \<Rightarrow> error + int" where
  "adjust_time unit_idx val d =
     bind_r (py_nth TIME_STEPS unit_idx) (\<lambda>stp.
     bind_r (py_nth TIME_UNITS unit_idx) (\<lambda>tu.
       Inr (clamp_adj (unit_min tu) (unit_max tu) stp val d)))"

definition adjust_intensity :: "int \<Rightarrow> int \<Rightarrow> int" where
  "adjust_intensity val d = clamp_adj INT_MIN INT_MAX INT_STEP val d"

definition adjust_loops :: "int \<Rightarrow> int \<Rightarrow> int" where
  "adjust_loops val d = clamp_adj 1 99 1 val d"

subsection \<open>Program names\<close>

text \<open>
  \<^verbatim>\<open>f"P-{p_num:02d}"\<close>: decimal digits, padded with a zero to two places. The script only
  formats numbers from 1 upwards.
\<close>

definition digit_char :: "nat \<Rightarrow> char" where
  "digit_char k = char_of (48 + k)"

fun dec_digits :: "nat \<Rightarrow> string" where
  "dec_digits n = (if n < 10 then [digit_char n] else dec_digits (n div 10) @ [digit_char (n mod 10)])"

declare dec_digits.simps [simp del]

definition fmt_02d :: "nat \<Rightarrow> string" where
  "fmt_02d n = (if n < 10 then CHR ''0'' # dec_digits n else dec_digits n)"

definition prog_label :: "nat \<Rightarrow> string" where
  "prog_label n = ''P-'' @ fmt_02d n"

text \<open>
  \<^verbatim>\<open>int(temp_program_name.split('-')[1])\<close> under \<^verbatim>\<open>try\<close>: \<open>None\<close> stands for the
  exception the bare \<^verbatim>\<open>except\<close> catches (no second field, or not a number). A number is a
  non-empty run of ASCII digits, which is all the script ever writes after the dash.
\<close>

fun split_on :: "char \<Rightarrow> string \<Rightarrow> string list" where
  "split_on c [] = [[]]"
| "split_on c (x # xs) =
     (if x = c then [] # split_on c xs
      else (case split_on c xs of [] \<Rightarrow> [[x]] | w # ws \<Rightarrow> (x # w) # ws))"

definition is_digit :: "char \<Rightarrow> bool" where
  "is_digit c \<longleftrightarrow> (48::nat) \<le> of_char c \<and> (of_char c :: nat) \<le> 57"

definition digit_val :: "char \<Rightarrow> nat" where
  "digit_val c = of_char c - 48"

definition py_int :: "string \<Rightarrow> nat option" where
  "py_int w = (if w \<noteq> [] \<and> list_all is_digit w
               then Some (foldl (\<lambda>acc c. 10 * acc + digit_val c) 0 w) else None)"

definition name_number :: "string \<Rightarrow> nat option" where
  "name_number nm = (case split_on CHR ''-'' nm of _ # w # _ \<Rightarrow> py_int w | _ \<Rightarrow> None)"

text \<open>The rotation handler of the set-name state: parse (1 on failure), clamp, format.\<close>

definition adjust_name :: "string \<Rightarrow> int \<Rightarrow> string" where
  "adjust_name nm d =
     (let p_num = (case name_number nm of Some k \<Rightarrow> int k | None \<Rightarrow> 1)
      in prog_label (nat (max 1 (min 99 (p_num + dir d)))))"

text \<open>
  \<^verbatim>\<open>p_num = 1; while f"P-{p_num:02d}" in p_names: p_num += 1\<close>: the first label from
  \<open>p_num\<close> on that no stored program carries. Its termination is proved below, from
  the labels of different numbers being different.
\<close>

function first_free :: "string list \<Rightarrow> nat \<Rightarrow> nat" where
  "first_free p_names p_num =
     (if prog_label p_num \<in> set p_names then first_free p_names (Suc p_num) else p_num)"
  by pat_completeness auto

lemma of_char_digit_char: "k < 10 \<Longrightarrow> (of_char (digit_char k) :: nat) = 48 + k"
  by (simp add: digit_char_def)

lemma is_digit_digit_char: "k < 10 \<Longrightarrow> is_digit (digit_char k)"
  by (simp add: is_digit_def of_char_digit_char)

lemma digit_val_digit_char: "k < 10 \<Longrightarrow> digit_val (digit_char k) = k"
  by (simp add: digit_val_def of_char_digit_char)

lemma dec_digits_ne: "dec_digits n \<noteq> []"
  by (subst dec_digits.simps) simp

lemma dec_digits_all: "list_all is_digit (dec_digits n)"
proof (induction n rule: dec_digits.induct)
  case (1 n)
  show ?case
  proof (cases "n < 10")
    case True
    then show ?thesis by (subst dec_digits.simps) (simp add: is_digit_digit_char)
  next
    case False
    with 1 show ?thesis by (subst dec_digits.simps) (simp add: is_digit_digit_char)
  qed
qed

lemma dec_digits_val: "foldl (\<lambda>acc c. 10 * acc + digit_val c) 0 (dec_digits n) = n"
proof (induction n rule: dec_digits.induct)
  case (1 n)
  show ?case
  proof (cases "n < 10")
    case True
    then show ?thesis by (subst dec_digits.simps) (simp add: digit_val_digit_char)
  next
    case False
    with 1 show ?thesis by (subst dec_digits.simps) (simp add: digit_val_digit_char)
  qed
qed

lemma is_digit_zero: "is_digit CHR ''0''" "digit_val CHR ''0'' = 0"
  by (simp_all add: is_digit_def digit_val_def)

lemma py_int_fmt_02d: "py_int (fmt_02d n) = Some n"
  by (simp add: py_int_def fmt_02d_def dec_digits_ne dec_digits_all dec_digits_val is_digit_zero)

lemma split_on_absent: "c \<notin> set w \<Longrightarrow> split_on c w = [w]"
  by (induction w) auto

lemma dash_not_digit: "is_digit c \<Longrightarrow> c \<noteq> CHR ''-''"
  by (auto simp: is_digit_def)

lemma fmt_02d_all: "list_all is_digit (fmt_02d n)"
  by (simp add: fmt_02d_def dec_digits_all is_digit_zero)

lemma fmt_02d_no_dash: "CHR ''-'' \<notin> set (fmt_02d n)"
  using fmt_02d_all [of n] dash_not_digit by (auto simp: list_all_iff)

lemma name_number_prog_label: "name_number (prog_label n) = Some n"
  by (simp add: name_number_def prog_label_def split_on_absent [OF fmt_02d_no_dash] py_int_fmt_02d)

lemma inj_prog_label: "inj prog_label"
  by (rule inj_on_inverseI [where g = "\<lambda>s. the (name_number s)"]) (simp add: name_number_prog_label)

lemma finite_labelled: "finite {k. prog_label k \<in> set p_names}"
proof -
  have "{k. prog_label k \<in> set p_names} = prog_label -` set p_names" by auto
  then show ?thesis using finite_vimageI [OF _ inj_prog_label, of "set p_names"] by simp
qed

termination first_free
proof (relation "measure (\<lambda>(p_names, p_num). card {k. p_num \<le> k \<and> prog_label k \<in> set p_names})")
  show "wf (measure (\<lambda>(p_names, p_num). card {k. p_num \<le> k \<and> prog_label k \<in> set p_names}))"
    by simp
next
  fix p_names :: "string list" and p_num :: nat
  assume a: "prog_label p_num \<in> set p_names"
  have fin: "finite {k. p_num \<le> k \<and> prog_label k \<in> set p_names}"
    by (rule finite_subset [OF _ finite_labelled [of p_names]]) auto
  have sub: "{k. Suc p_num \<le> k \<and> prog_label k \<in> set p_names} \<subseteq> {k. p_num \<le> k \<and> prog_label k \<in> set p_names}"
    by auto
  have "p_num \<in> {k. p_num \<le> k \<and> prog_label k \<in> set p_names}" using a by simp
  moreover have "p_num \<notin> {k. Suc p_num \<le> k \<and> prog_label k \<in> set p_names}" by simp
  ultimately have "{k. Suc p_num \<le> k \<and> prog_label k \<in> set p_names} \<subset> {k. p_num \<le> k \<and> prog_label k \<in> set p_names}"
    using sub by blast
  then have "card {k. Suc p_num \<le> k \<and> prog_label k \<in> set p_names} < card {k. p_num \<le> k \<and> prog_label k \<in> set p_names}"
    by (rule psubset_card_mono [OF fin])
  then show "((p_names, Suc p_num), (p_names, p_num)) \<in> measure (\<lambda>(p_names, p_num). card {k. p_num \<le> k \<and> prog_label k \<in> set p_names})"
    by simp
qed

declare first_free.simps [simp del]

subsection \<open>Persistence\<close>

text \<open>
  What \<^verbatim>\<open>open(PROGRAMS_FILE)\<close> and \<^verbatim>\<open>json.load\<close> meet. The file is absent or unreadable
  (\<^verbatim>\<open>open\<close> raises), is not JSON (\<^verbatim>\<open>json.load\<close> raises), holds a JSON value without a
  length, a number or \<^verbatim>\<open>null\<close> (\<^verbatim>\<open>len(programs)\<close> raises), or holds a list of programs,
  which is what the script itself writes.
\<close>

datatype file_read = OpenFails | ParseFails | ParsedNoLen | ParsedList "program list"

datatype io_error = OSError | ValueError | LenTypeError

definition load_body :: "file_read \<Rightarrow> io_error + program list" where
  "load_body f = (case f of OpenFails \<Rightarrow> Inl OSError | ParseFails \<Rightarrow> Inl ValueError
                  | ParsedNoLen \<Rightarrow> Inl LenTypeError | ParsedList ps \<Rightarrow> Inr ps)"

text \<open>\<^verbatim>\<open>load_programs_from_file()\<close>: the body under \<^verbatim>\<open>try\<close>, and \<^verbatim>\<open>return []\<close> in the handler.\<close>

definition load_programs_from_file :: "file_read \<Rightarrow> program list" where
  "load_programs_from_file f = (case load_body f of Inl e \<Rightarrow> [] | Inr ps \<Rightarrow> ps)"

text \<open>
  The write: it succeeds, or \<^verbatim>\<open>open\<close> or \<^verbatim>\<open>json.dump\<close> raises and leaves a file that
  reads as the given value (the old content, or a truncated one).
\<close>

datatype file_write = WriteOk | WriteFails file_read

definition save_body :: "program list \<Rightarrow> file_write \<Rightarrow> io_error + file_read" where
  "save_body programs_list w = (case w of WriteOk \<Rightarrow> Inr (ParsedList programs_list)
                                | WriteFails f \<Rightarrow> Inl OSError)"

text \<open>
  \<^verbatim>\<open>save_programs_to_file(programs_list)\<close>: returns nothing and catches every exception of
  its body; the result here is the file afterwards.
\<close>

definition save_programs_to_file :: "program list \<Rightarrow> file_write \<Rightarrow> file_read" where
  "save_programs_to_file programs_list w =
     (case save_body programs_list w of
        Inr f \<Rightarrow> f
      | Inl e \<Rightarrow> (case w of WriteFails f \<Rightarrow> f | WriteOk \<Rightarrow> ParsedList programs_list))"

subsection \<open>The globals\<close>

datatype mode = MODE_MAIN_MENU | MODE_SIMPLE | MODE_CUSTOM_MENU | MODE_CUSTOM_CREATE

datatype simple_mode = S_IDLE | S_SET_TIME_UNIT | S_SET_TIME | S_SET_INTENS | S_RUNNING | S_DONE

datatype create_mode =
    C_CREATE_START | C_CREATE_SET_TIME_UNIT | C_CREATE_SET_TIME | C_CREATE_SET_INTENS
  | C_CREATE_ADD_STEP | C_CREATE_SET_LOOPS | C_CREATE_SET_NAME | C_CREATE_SAVE_PROG

datatype run_mode = C_RUN_START | C_RUN_STEP | C_RUN_DONE

type_synonym rgb = "nat \<times> nat \<times> nat"

definition COLOR_NORMAL_1 :: rgb where "COLOR_NORMAL_1 = (255, 255, 255)"
definition COLOR_NORMAL_2 :: rgb where "COLOR_NORMAL_2 = (0, 20, 0)"
definition COLOR_NORMAL_3 :: rgb where "COLOR_NORMAL_3 = (20, 0, 0)"
definition COLOR_ALARM_1 :: rgb where "COLOR_ALARM_1 = (0, 255, 0)"
definition COLOR_OFF :: rgb where "COLOR_OFF = (0, 0, 0)"
definition COLOR_DONE :: rgb where "COLOR_DONE = (255, 0, 0)"

definition blink_interval_ms :: int where "blink_interval_ms = 500"

text \<open>
  Program dicts are objects: \<^verbatim>\<open>current_program = saved_programs[k]\<close> and
  \<^verbatim>\<open>saved_programs.append(current_program)\<close> share one dict between the slot and the
  list. So the dicts live in \<open>heap\<close>, \<open>saved_programs\<close> is a list of addresses and
  \<open>current_program\<close> an address; \<open>heap_next\<close> is the next unused address. A step dict is
  written through \<^verbatim>\<open>temp_step\<close> only before it is appended, and is kept as a value.

  \<open>uv\<close> is the duty of the PWM output (\<^verbatim>\<open>uv.value\<close>; \<^verbatim>\<open>uv.off()\<close> makes it 0),
  \<open>neopixel\<close> the three pixels (\<open>None\<close> when the driver failed to start), \<open>disk\<close> what the
  programs file reads as.
\<close>

record state =
  main_state :: mode
  main_menu_idx :: int
  simple_state :: simple_mode
  custom_menu_idx :: int
  create_state :: create_mode
  run_state :: run_mode
  load_state :: int
  load_program_idx :: int
  last_enc :: int
  s_current_time_unit_idx :: int
  s_set_value :: int
  s_set_int :: int
  s_run_duration_sec :: rat
  s_start_ts :: "int option"
  saved_programs :: "nat list"
  current_program :: nat
  temp_step :: step
  temp_program_name :: string
  temp_program_loops :: int
  c_run_duration_sec :: rat
  c_start_ts :: "int option"
  c_run_current_step :: int
  c_run_current_loop :: int
  temp_add_another :: bool
  last_blink_ms :: int
  blink_state_on :: bool
  lid_was_open :: bool
  uv :: rat
  neopixel :: "(rgb \<times> rgb \<times> rgb) option"
  disk :: file_read
  heap :: "nat \<Rightarrow> program"
  heap_next :: nat

text \<open>
  What one pass reads. The button is read by the handler that runs: \<open>Released\<close> is not
  pressed at the first read, \<open>Tap\<close> pressed there and released before the handler's hold
  time is over, \<open>Hold\<close> still pressed when it is over. \<open>in_btn2\<close> is the same for the
  load handler when another handler of the custom menu has read the button before it in
  the same pass. \<open>in_clock\<close> is the later \<^verbatim>\<open>time.ticks_ms()\<close> that stamps the start of a
  run step.
\<close>

datatype button = Released | Tap | Hold

record input =
  in_enc :: int
  in_now :: int
  in_lid :: int
  in_btn :: button
  in_btn2 :: button
  in_clock :: int
  in_write :: file_write

subsection \<open>Reading the hardware\<close>

text \<open>\<^verbatim>\<open>read_delta()\<close>: the encoder movement since the last pass that saw one.\<close>

definition read_delta :: "input \<Rightarrow> state \<Rightarrow> int \<times> state" where
  "read_delta inp s =
     (let d = in_enc inp - last_enc s
      in (d, if d \<noteq> 0 then s\<lparr>last_enc := in_enc inp\<rparr> else s))"

text \<open>
  \<^verbatim>\<open>time.ticks_diff(a, b)\<close> of MicroPython: the signed difference of two readings of
  the millisecond counter, which wraps at \<open>TICKS_PERIOD\<close> (\<open>2 ^ 30\<close> on the RP2 port the
  script runs on).
\<close>

definition TICKS_PERIOD :: int where
  "TICKS_PERIOD = 2 ^ 30"

definition ticks_diff :: "int \<Rightarrow> int \<Rightarrow> int" where
  "ticks_diff a b = (a - b + TICKS_PERIOD div 2) mod TICKS_PERIOD - TICKS_PERIOD div 2"

text \<open>\<^verbatim>\<open>remain_sec = max(0, duration - ticks_diff(now, start) / 1000.0)\<close>.\<close>

definition remain_sec :: "rat \<Rightarrow> int \<Rightarrow> int \<Rightarrow> rat" where
  "remain_sec duration t start = max 0 (duration - of_int (ticks_diff t start) / 1000)"

definition pressed :: "button \<Rightarrow> bool" where
  "pressed b \<longleftrightarrow> b \<noteq> Released"

definition cur_prog :: "state \<Rightarrow> program" where
  "cur_prog s = heap s (current_program s)"

text \<open>\<^verbatim>\<open>len(current_program['steps'])\<close> inside a display string: it raises without the key.\<close>

definition steps_shown :: "state \<Rightarrow> error + step list" where
  "steps_shown s = py_key (prog_steps (cur_prog s))"

subsection \<open>Lid safety and indicator\<close>

text \<open>The emergency stop at the top of the loop: its condition and its assignments.\<close>

definition lid_stop_due :: "bool \<Rightarrow> state \<Rightarrow> bool" where
  "lid_stop_due is_lid_open s \<longleftrightarrow>
     is_lid_open \<and>
     ((main_state s = MODE_SIMPLE \<and> simple_state s = S_RUNNING) \<or>
      (main_state s = MODE_CUSTOM_MENU \<and> c_start_ts s \<noteq> None))"

definition lid_stop :: "state \<Rightarrow> state" where
  "lid_stop s = s\<lparr>uv := 0, main_state := MODE_MAIN_MENU, simple_state := S_IDLE, c_start_ts := None\<rparr>"

definition blink_step :: "rgb \<Rightarrow> int \<Rightarrow> state \<Rightarrow> state" where
  "blink_step on_color t s =
     (if neopixel s \<noteq> None \<and> ticks_diff t (last_blink_ms s) > blink_interval_ms
      then (let b = \<not> blink_state_on s; color = (if b then on_color else COLOR_OFF)
            in s\<lparr>last_blink_ms := t, blink_state_on := b, neopixel := Some (color, color, color)\<rparr>)
      else s)"

definition indicator :: "bool \<Rightarrow> int \<Rightarrow> state \<Rightarrow> state" where
  "indicator is_lid_open t s =
     (if simple_state s = S_DONE \<or> run_state s = C_RUN_DONE then blink_step COLOR_DONE t s
      else if is_lid_open then (blink_step COLOR_ALARM_1 t s)\<lparr>lid_was_open := True\<rparr>
      else if \<not> is_lid_open \<and> lid_was_open s
      then s\<lparr>neopixel := (if neopixel s \<noteq> None
                          then Some (COLOR_NORMAL_1, COLOR_NORMAL_2, COLOR_NORMAL_3) else None),
             lid_was_open := False\<rparr>
      else s)"

subsection \<open>Main menu\<close>

definition main_menu :: "int \<Rightarrow> bool \<Rightarrow> input \<Rightarrow> state \<Rightarrow> error + state" where
  "main_menu d is_lid_open inp s =
     (let s1 = (if d \<noteq> 0 then s\<lparr>main_menu_idx := (main_menu_idx s + 1) mod 2\<rparr> else s)
      in if pressed (in_btn inp) then
           (if is_lid_open then Inr s1
            else if main_menu_idx s1 = 0
            then Inr (s1\<lparr>main_state := MODE_SIMPLE, simple_state := S_IDLE\<rparr>)
            else if main_menu_idx s1 = 1
            then Inr (s1\<lparr>main_state := MODE_CUSTOM_MENU, custom_menu_idx := 0\<rparr>)
            else Inr s1)
         else Inr s1)"

subsection \<open>Simple mode\<close>

definition simple_idle :: "bool \<Rightarrow> input \<Rightarrow> state \<Rightarrow> error + state" where
  "simple_idle is_lid_open inp s =
     (if pressed (in_btn inp) then
        (if is_lid_open then Inr s
         else bind_r (py_nth TIME_UNITS (s_current_time_unit_idx s)) (\<lambda>tu.
                Inr (s\<lparr>simple_state := S_SET_TIME_UNIT\<rparr>)))
      else Inr s)"

text \<open>
  The turn of a set-time-unit state, of simple mode and of the wizard alike: the index
  wraps and \<^verbatim>\<open>s_set_value\<close> becomes the default of the new unit.
\<close>

definition turn_time_unit :: "int \<Rightarrow> state \<Rightarrow> error + state" where
  "turn_time_unit d s =
     (let k = wrap_idx (int (length TIME_UNITS)) (s_current_time_unit_idx s) d
      in bind_r (py_nth TIME_UNITS k) (\<lambda>tu.
           Inr (s\<lparr>s_current_time_unit_idx := k, s_set_value := unit_default tu\<rparr>)))"

definition simple_set_time_unit :: "int \<Rightarrow> input \<Rightarrow> state \<Rightarrow> error + state" where
  "simple_set_time_unit d inp s =
     bind_r (if d \<noteq> 0 then turn_time_unit d s else Inr s) (\<lambda>s1.
       if pressed (in_btn inp) then Inr (s1\<lparr>simple_state := S_SET_TIME\<rparr>) else Inr s1)"

definition simple_set_time :: "int \<Rightarrow> input \<Rightarrow> state \<Rightarrow> error + state" where
  "simple_set_time d inp s =
     bind_r (if d \<noteq> 0
             then bind_r (adjust_time (s_current_time_unit_idx s) (s_set_value s) d) (\<lambda>val.
                    Inr (s\<lparr>s_set_value := val\<rparr>))
             else Inr s) (\<lambda>s1.
       if pressed (in_btn inp) then Inr (s1\<lparr>simple_state := S_SET_INTENS\<rparr>) else Inr s1)"

text \<open>The inline conversion of simple mode; an index outside 0, 1, 2 leaves the duration.\<close>

definition simple_duration :: "state \<Rightarrow> rat" where
  "simple_duration s =
     (let idx = s_current_time_unit_idx s in
      if idx = 0 then of_int (s_set_value s)
      else if idx = 1 then of_int (s_set_value s * 60)
      else if idx = 2 then of_int (s_set_value s) / 1000
      else s_run_duration_sec s)"

definition simple_set_intens :: "int \<Rightarrow> bool \<Rightarrow> input \<Rightarrow> state \<Rightarrow> error + state" where
  "simple_set_intens d is_lid_open inp s =
     (let s1 = (if d \<noteq> 0 then s\<lparr>s_set_int := adjust_intensity (s_set_int s) d\<rparr> else s)
      in if pressed (in_btn inp) then
           (if is_lid_open then Inr s1
            else Inr (s1\<lparr>s_run_duration_sec := simple_duration s1,
                         uv := of_int (s_set_int s1) / 100,
                         s_start_ts := Some (in_clock inp),
                         simple_state := S_RUNNING\<rparr>))
         else Inr s1)"

text \<open>
  The running state: first the long-press cancel, then, not as an \<^verbatim>\<open>else\<close>, the expiry
  test on the remaining time computed at the top of the handler.
\<close>

definition simple_cancel :: "state \<Rightarrow> state" where
  "simple_cancel s = s\<lparr>uv := 0, s_start_ts := None, simple_state := S_IDLE, main_state := MODE_MAIN_MENU\<rparr>"

definition simple_finish :: "int \<Rightarrow> state \<Rightarrow> state" where
  "simple_finish t s =
     s\<lparr>uv := 0, s_start_ts := None, simple_state := S_DONE, last_blink_ms := t, blink_state_on := True\<rparr>"

definition simple_running :: "input \<Rightarrow> state \<Rightarrow> error + state" where
  "simple_running inp s =
     (case s_start_ts s of
        None \<Rightarrow> Inl TypeError
      | Some t0 \<Rightarrow>
          (let remain = remain_sec (s_run_duration_sec s) (in_now inp) t0;
               s1 = (if in_btn inp = Hold then simple_cancel s else s)
           in if remain \<le> 0 then Inr (simple_finish (in_now inp) s1) else Inr s1))"

definition simple_done :: "input \<Rightarrow> state \<Rightarrow> error + state" where
  "simple_done inp s =
     (if pressed (in_btn inp) then
        bind_r (py_nth main_menu_items (main_menu_idx s)) (\<lambda>item.
          Inr (s\<lparr>simple_state := S_IDLE, main_state := MODE_MAIN_MENU, lid_was_open := True\<rparr>))
      else Inr s)"

definition simple :: "int \<Rightarrow> bool \<Rightarrow> input \<Rightarrow> state \<Rightarrow> error + state" where
  "simple d is_lid_open inp s =
     (case simple_state s of
        S_IDLE \<Rightarrow> simple_idle is_lid_open inp s
      | S_SET_TIME_UNIT \<Rightarrow> simple_set_time_unit d inp s
      | S_SET_TIME \<Rightarrow> simple_set_time d inp s
      | S_SET_INTENS \<Rightarrow> simple_set_intens d is_lid_open inp s
      | S_RUNNING \<Rightarrow> simple_running inp s
      | S_DONE \<Rightarrow> simple_done inp s)"

subsection \<open>Custom menu: the run\<close>

text \<open>
  Starting the step at \<^verbatim>\<open>c_run_current_step\<close>: duty, duration and start stamp. The
  same four statements start the first step, the next step and the next loop.
\<close>

definition start_step :: "input \<Rightarrow> state \<Rightarrow> error + state" where
  "start_step inp s =
     bind_r (py_key (prog_steps (cur_prog s))) (\<lambda>sts.
     bind_r (py_nth sts (c_run_current_step s)) (\<lambda>new_step.
     bind_r (step_duty new_step) (\<lambda>duty.
     bind_r (get_duration_sec new_step) (\<lambda>dur.
       Inr (s\<lparr>uv := duty, c_run_duration_sec := dur, c_start_ts := Some (in_clock inp)\<rparr>)))))"

definition custom_finish :: "int \<Rightarrow> state \<Rightarrow> state" where
  "custom_finish t s =
     s\<lparr>uv := 0, c_start_ts := None, run_state := C_RUN_DONE, last_blink_ms := t, blink_state_on := True\<rparr>"

text \<open>The branch \<^verbatim>\<open>if remain_sec <= 0\<close> of the run: next step, next loop, or finished.\<close>

definition custom_advance :: "input \<Rightarrow> state \<Rightarrow> error + state" where
  "custom_advance inp s =
     bind_r (py_key (prog_steps (cur_prog s))) (\<lambda>sts.
       let k = c_run_current_step s + 1 in
       if k \<ge> int (length sts) then
         (let l = c_run_current_loop s + 1;
              s1 = s\<lparr>c_run_current_step := 0, c_run_current_loop := l\<rparr>
          in bind_r (py_key (prog_loops (cur_prog s))) (\<lambda>loops.
               if l > loops then Inr (custom_finish (in_now inp) s1)
               else start_step inp s1))
       else start_step inp (s\<lparr>c_run_current_step := k\<rparr>))"

definition custom_cancel :: "state \<Rightarrow> state" where
  "custom_cancel s = s\<lparr>uv := 0, c_start_ts := None, main_state := MODE_MAIN_MENU\<rparr>"

text \<open>
  The run handler, entered when \<^verbatim>\<open>c_start_ts is not None\<close> with the stamp \<open>t0\<close>. As in
  simple mode the expiry test follows the cancel and is not an \<^verbatim>\<open>else\<close> of it.
\<close>

definition custom_run :: "int \<Rightarrow> input \<Rightarrow> state \<Rightarrow> error + state" where
  "custom_run t0 inp s =
     (let remain = remain_sec (c_run_duration_sec s) (in_now inp) t0 in
      bind_r (py_key (prog_steps (cur_prog s))) (\<lambda>sts.
      bind_r (py_nth sts (c_run_current_step s)) (\<lambda>stp.
      bind_r (py_key (step_i stp)) (\<lambda>step_int.
      bind_r (py_key (prog_loops (cur_prog s))) (\<lambda>loops.
        let s1 = (if in_btn inp = Hold then custom_cancel s else s)
        in if remain \<le> 0 then custom_advance inp s1 else Inr s1)))))"

definition custom_done :: "input \<Rightarrow> state \<Rightarrow> error + state" where
  "custom_done inp s =
     (if pressed (in_btn inp) then
        bind_r (py_nth main_menu_items (main_menu_idx s)) (\<lambda>item.
          Inr (s\<lparr>run_state := C_RUN_START, main_state := MODE_MAIN_MENU, lid_was_open := True\<rparr>))
      else Inr s)"

subsection \<open>Custom menu: navigation and load\<close>

text \<open>\<^verbatim>\<open>current_program = {"name": "New", "loops": 1, "steps": []}\<close>: a new dict.\<close>

definition new_program :: "state \<Rightarrow> state" where
  "new_program s =
     s\<lparr>heap := (heap s)(heap_next s := mk_program ''New'' 1 []),
       current_program := heap_next s,
       heap_next := Suc (heap_next s)\<rparr>"

text \<open>\<^verbatim>\<open>not current_program or not current_program.get("steps")\<close>.\<close>

definition nothing_to_run :: "state \<Rightarrow> bool" where
  "nothing_to_run s \<longleftrightarrow>
     cur_prog s = empty_program \<or> prog_steps (cur_prog s) = None \<or> prog_steps (cur_prog s) = Some []"

text \<open>
  The short press of the navigation, lid closed, on the selected item. The result of the
  navigation carries a flag for \<^verbatim>\<open>continue\<close>, which skips the load handler below it.
\<close>

definition nav_confirm :: "input \<Rightarrow> state \<Rightarrow> error + state" where
  "nav_confirm inp s =
     (if custom_menu_idx s = C_MENU_LOAD then
        (let s1 = s\<lparr>load_state := C_LOAD_SELECT, load_program_idx := 0\<rparr>
         in if saved_programs s1 = [] then Inr (s1\<lparr>load_state := - 1\<rparr>)
            else bind_r (py_nth (saved_programs s1) (load_program_idx s1)) (\<lambda>a.
                 bind_r (py_key (prog_name (heap s1 a))) (\<lambda>nm. Inr s1)))
      else if custom_menu_idx s = C_MENU_CREATE then
        Inr ((new_program (s\<lparr>main_state := MODE_CUSTOM_CREATE, create_state := C_CREATE_START\<rparr>))
               \<lparr>temp_step := empty_step\<rparr>)
      else if custom_menu_idx s = C_MENU_RUN then
        (if nothing_to_run s then Inr s
         else start_step inp
                (s\<lparr>run_state := C_RUN_START, c_run_current_step := 0, c_run_current_loop := 1\<rparr>))
      else Inr s)"

definition custom_nav :: "int \<Rightarrow> bool \<Rightarrow> input \<Rightarrow> state \<Rightarrow> error + (bool \<times> state)" where
  "custom_nav d is_lid_open inp s =
     (let s1 = (if d \<noteq> 0
                then s\<lparr>custom_menu_idx := wrap_idx (int (length custom_menu_items)) (custom_menu_idx s) d\<rparr>
                else s)
      in case in_btn inp of
           Released \<Rightarrow> Inr (False, s1)
         | Hold \<Rightarrow>
             bind_r (py_nth main_menu_items (main_menu_idx s1)) (\<lambda>item.
               Inr (False, s1\<lparr>main_state := MODE_MAIN_MENU\<rparr>))
         | Tap \<Rightarrow>
             if is_lid_open then Inr (True, s1)
             else bind_r (nav_confirm inp s1) (\<lambda>s2. Inr (False, s2)))"

text \<open>
  The load handler, which follows the three branches above as a separate \<^verbatim>\<open>if\<close>; \<open>b\<close>
  is its reading of the button. The confirm is \<^verbatim>\<open>current_program = saved_programs[k]\<close>:
  the slot gets the address of the stored dict.
\<close>

definition load_turn :: "int \<Rightarrow> state \<Rightarrow> error + state" where
  "load_turn d s =
     (if d \<noteq> 0 \<and> saved_programs s \<noteq> [] then
        (let k = wrap_idx (int (length (saved_programs s))) (load_program_idx s) d
         in bind_r (py_nth (saved_programs s) k) (\<lambda>a.
            bind_r (py_key (prog_name (heap s a))) (\<lambda>nm. Inr (s\<lparr>load_program_idx := k\<rparr>))))
      else Inr s)"

definition load_confirm :: "state \<Rightarrow> error + state" where
  "load_confirm s =
     (if saved_programs s \<noteq> [] then
        bind_r (py_nth (saved_programs s) (load_program_idx s)) (\<lambda>a.
        bind_r (py_key (prog_name (heap s a))) (\<lambda>nm.
        bind_r (py_nth custom_menu_items (custom_menu_idx s)) (\<lambda>item.
          Inr (s\<lparr>current_program := a, load_state := - 1\<rparr>))))
      else Inr s)"

definition custom_load :: "int \<Rightarrow> button \<Rightarrow> state \<Rightarrow> error + state" where
  "custom_load d b s =
     (if load_state s \<noteq> - 1 then
        (if load_state s = C_LOAD_SELECT then
           bind_r (load_turn d s) (\<lambda>s1.
             case b of
               Released \<Rightarrow> Inr s1
             | Hold \<Rightarrow>
                 bind_r (py_nth custom_menu_items (custom_menu_idx s1)) (\<lambda>item.
                   Inr (s1\<lparr>load_state := - 1\<rparr>))
             | Tap \<Rightarrow> load_confirm s1)
         else Inr s)
      else Inr s)"

definition custom_menu :: "int \<Rightarrow> bool \<Rightarrow> input \<Rightarrow> state \<Rightarrow> error + state" where
  "custom_menu d is_lid_open inp s =
     (case c_start_ts s of
        Some t0 \<Rightarrow> bind_r (custom_run t0 inp s) (custom_load d (in_btn2 inp))
      | None \<Rightarrow>
          if run_state s = C_RUN_DONE
          then bind_r (custom_done inp s) (custom_load d (in_btn2 inp))
          else if load_state s = - 1
          then bind_r (custom_nav d is_lid_open inp s) (\<lambda>(skip, s1).
                 if skip then Inr s1 else custom_load d (in_btn2 inp) s1)
          else custom_load d (in_btn inp) s)"

subsection \<open>Custom create: the wizard\<close>

text \<open>\<^verbatim>\<open>p_names = [p["name"] for p in saved_programs]\<close>.\<close>

fun names_of :: "(nat \<Rightarrow> program) \<Rightarrow> nat list \<Rightarrow> error + string list" where
  "names_of h [] = Inr []"
| "names_of h (a # as) =
     bind_r (py_key (prog_name (h a))) (\<lambda>nm.
     bind_r (names_of h as) (\<lambda>nms. Inr (nm # nms)))"

text \<open>
  The search of the save: \<^verbatim>\<open>found_idx = -1\<close>, then the first \<open>k\<close> with
  \<^verbatim>\<open>saved_programs[k]["name"] == current_program["name"]\<close>; \<open>k\<close> counts the entries passed.
\<close>

fun find_name :: "(nat \<Rightarrow> program) \<Rightarrow> program \<Rightarrow> nat list \<Rightarrow> int \<Rightarrow> error + int" where
  "find_name h cur [] k = Inr (- 1)"
| "find_name h cur (a # as) k =
     bind_r (py_key (prog_name (h a))) (\<lambda>nm.
     bind_r (py_key (prog_name cur)) (\<lambda>cnm.
       if nm = cnm then Inr k else find_name h cur as (k + 1)))"

text \<open>Replace by name or append, on the list of addresses.\<close>

definition store_program :: "int \<Rightarrow> nat \<Rightarrow> nat list \<Rightarrow> nat list" where
  "store_program found_idx a progs =
     (if found_idx \<noteq> - 1 then progs[nat found_idx := a] else progs @ [a])"

definition save_confirm :: "input \<Rightarrow> state \<Rightarrow> error + state" where
  "save_confirm inp s =
     bind_r (find_name (heap s) (cur_prog s) (saved_programs s) 0) (\<lambda>found_idx.
       let progs = store_program found_idx (current_program s) (saved_programs s)
       in Inr (s\<lparr>saved_programs := progs,
                 disk := save_programs_to_file (map (heap s) progs) (in_write inp),
                 main_state := MODE_CUSTOM_MENU,
                 custom_menu_idx := 0\<rparr>))"

definition set_cur :: "program \<Rightarrow> state \<Rightarrow> state" where
  "set_cur p s = s\<lparr>heap := (heap s)(current_program s := p)\<rparr>"

text \<open>The short press of the wizard, by state.\<close>

definition create_confirm :: "input \<Rightarrow> state \<Rightarrow> error + state" where
  "create_confirm inp s =
     (case create_state s of
        C_CREATE_START \<Rightarrow>
          bind_r (steps_shown s) (\<lambda>sts.
            Inr (s\<lparr>create_state := C_CREATE_SET_TIME_UNIT, s_current_time_unit_idx := 0,
                   s_set_value := unit_default (TIME_UNITS ! 0)\<rparr>))
      | C_CREATE_SET_TIME_UNIT \<Rightarrow>
          bind_r (steps_shown s) (\<lambda>sts.
            Inr (s\<lparr>create_state := C_CREATE_SET_TIME,
                   temp_step := \<lparr>step_u = Some (s_current_time_unit_idx s),
                                 step_v = Some (s_set_value s), step_i = None\<rparr>\<rparr>))
      | C_CREATE_SET_TIME \<Rightarrow>
          bind_r (steps_shown s) (\<lambda>sts.
            Inr (s\<lparr>temp_step := (temp_step s)\<lparr>step_v := Some (s_set_value s)\<rparr>,
                   create_state := C_CREATE_SET_INTENS, s_set_int := 50\<rparr>))
      | C_CREATE_SET_INTENS \<Rightarrow>
          (let ts = (temp_step s)\<lparr>step_i := Some (s_set_int s)\<rparr> in
           bind_r (py_key (prog_steps (cur_prog s))) (\<lambda>sts.
             Inr ((set_cur ((cur_prog s)\<lparr>prog_steps := Some (sts @ [ts])\<rparr>) s)
                    \<lparr>temp_step := ts, create_state := C_CREATE_ADD_STEP, temp_add_another := True\<rparr>)))
      | C_CREATE_ADD_STEP \<Rightarrow>
          (if temp_add_another s then
             bind_r (steps_shown s) (\<lambda>sts.
               Inr (s\<lparr>create_state := C_CREATE_SET_TIME_UNIT, s_current_time_unit_idx := 0,
                      s_set_value := unit_default (TIME_UNITS ! 0)\<rparr>))
           else Inr (s\<lparr>create_state := C_CREATE_SET_LOOPS, temp_program_loops := 1\<rparr>))
      | C_CREATE_SET_LOOPS \<Rightarrow>
          (let s1 = set_cur ((cur_prog s)\<lparr>prog_loops := Some (temp_program_loops s)\<rparr>) s in
           bind_r (names_of (heap s1) (saved_programs s1)) (\<lambda>p_names.
             Inr (s1\<lparr>create_state := C_CREATE_SET_NAME,
                     temp_program_name := prog_label (first_free p_names 1)\<rparr>)))
      | C_CREATE_SET_NAME \<Rightarrow>
          Inr ((set_cur ((cur_prog s)\<lparr>prog_name := Some (temp_program_name s)\<rparr>) s)
                 \<lparr>create_state := C_CREATE_SAVE_PROG\<rparr>)
      | C_CREATE_SAVE_PROG \<Rightarrow> save_confirm inp s)"

text \<open>The turn of the wizard, by state; it is the \<^verbatim>\<open>elif d != 0\<close> of the button test.\<close>

definition create_turn :: "int \<Rightarrow> state \<Rightarrow> error + state" where
  "create_turn d s =
     (case create_state s of
        C_CREATE_SET_TIME_UNIT \<Rightarrow>
          bind_r (turn_time_unit d s) (\<lambda>s1. bind_r (steps_shown s) (\<lambda>sts. Inr s1))
      | C_CREATE_SET_TIME \<Rightarrow>
          bind_r (py_key (step_u (temp_step s))) (\<lambda>unit_idx.
          bind_r (adjust_time unit_idx (s_set_value s) d) (\<lambda>val.
          bind_r (steps_shown s) (\<lambda>sts. Inr (s\<lparr>s_set_value := val\<rparr>))))
      | C_CREATE_SET_INTENS \<Rightarrow>
          bind_r (steps_shown s) (\<lambda>sts. Inr (s\<lparr>s_set_int := adjust_intensity (s_set_int s) d\<rparr>))
      | C_CREATE_ADD_STEP \<Rightarrow>
          bind_r (steps_shown s) (\<lambda>sts. Inr (s\<lparr>temp_add_another := \<not> temp_add_another s\<rparr>))
      | C_CREATE_SET_LOOPS \<Rightarrow>
          Inr (s\<lparr>temp_program_loops := adjust_loops (temp_program_loops s) d\<rparr>)
      | C_CREATE_SET_NAME \<Rightarrow>
          Inr (s\<lparr>temp_program_name := adjust_name (temp_program_name s) d\<rparr>)
      | _ \<Rightarrow> Inr s)"

text \<open>The long press of the wizard: back to the custom menu, the wizard reset to its start.\<close>

definition create_cancel :: "state \<Rightarrow> error + state" where
  "create_cancel s =
     bind_r (py_nth custom_menu_items (custom_menu_idx s)) (\<lambda>item.
       Inr (s\<lparr>main_state := MODE_CUSTOM_MENU, create_state := C_CREATE_START\<rparr>))"

definition custom_create :: "int \<Rightarrow> input \<Rightarrow> state \<Rightarrow> error + state" where
  "custom_create d inp s =
     (case in_btn inp of
        Hold \<Rightarrow> create_cancel s
      | Tap \<Rightarrow> create_confirm inp s
      | Released \<Rightarrow> if d \<noteq> 0 then create_turn d s else Inr s)"

subsection \<open>One pass of the super loop\<close>

definition dispatch :: "int \<Rightarrow> bool \<Rightarrow> input \<Rightarrow> state \<Rightarrow> error + state" where
  "dispatch d is_lid_open inp s =
     (case main_state s of
        MODE_MAIN_MENU \<Rightarrow> main_menu d is_lid_open inp s
      | MODE_SIMPLE \<Rightarrow> simple d is_lid_open inp s
      | MODE_CUSTOM_MENU \<Rightarrow> custom_menu d is_lid_open inp s
      | MODE_CUSTOM_CREATE \<Rightarrow> custom_create d inp s)"

definition tick :: "input \<Rightarrow> state \<Rightarrow> error + state" where
  "tick inp s =
     (let d = fst (read_delta inp s);
          s0 = snd (read_delta inp s);
          is_lid_open = (in_lid inp = 0)
      in if lid_stop_due is_lid_open s0 then Inr (lid_stop s0)
         else dispatch d is_lid_open inp (indicator is_lid_open (in_now inp) s0))"

text \<open>Passes in a row; an exception ends the script.\<close>

fun ticks :: "input list \<Rightarrow> state \<Rightarrow> error + state" where
  "ticks [] s = Inr s"
| "ticks (inp # inps) s = bind_r (tick inp s) (ticks inps)"

subsection \<open>Start-up\<close>

text \<open>
  The module-level initialisation up to the loop. The empty dict of \<^verbatim>\<open>current_program\<close>
  is at address 0, the loaded programs follow it.
\<close>

record boot =
  boot_file :: file_read
  boot_enc :: int
  boot_ticks :: int
  boot_lid :: int
  boot_neopixel :: bool

definition init :: "boot \<Rightarrow> state" where
  "init b =
     (let ps = load_programs_from_file (boot_file b);
          lid_open = (boot_lid b = 0)
      in \<lparr>main_state = MODE_MAIN_MENU, main_menu_idx = 0, simple_state = S_IDLE,
          custom_menu_idx = 0, create_state = C_CREATE_START, run_state = C_RUN_START,
          load_state = C_LOAD_SELECT, load_program_idx = 0, last_enc = boot_enc b,
          s_current_time_unit_idx = 0, s_set_value = unit_default (TIME_UNITS ! 0),
          s_set_int = 50, s_run_duration_sec = 0, s_start_ts = None,
          saved_programs = map Suc [0..<length ps], current_program = 0,
          temp_step = empty_step, temp_program_name = ''P-01'', temp_program_loops = 1,
          c_run_duration_sec = 0, c_start_ts = None, c_run_current_step = 0,
          c_run_current_loop = 1, temp_add_another = True,
          last_blink_ms = boot_ticks b, blink_state_on = True, lid_was_open = lid_open,
          uv = 0,
          neopixel = (if boot_neopixel b
                      then Some (if lid_open then (COLOR_ALARM_1, COLOR_ALARM_1, COLOR_ALARM_1)
                                 else (COLOR_NORMAL_1, COLOR_NORMAL_2, COLOR_NORMAL_3))
                      else None),
          disk = boot_file b,
          heap = (\<lambda>a. if 1 \<le> a \<and> a \<le> length ps then ps ! (a - 1) else empty_program),
          heap_next = Suc (length ps)\<rparr>)"

subsection \<open>Observing a run, and an example\<close>

text \<open>
  What the claims observe of a state: the mode, the simple sub-state, whether a custom run
  cursor exists (\<^verbatim>\<open>c_start_ts is not None\<close>) and the duty of the UV output; and of a custom
  run: loop, step, duty, duration, cursor and runner state.
\<close>

definition outcome :: "state \<Rightarrow> mode \<times> simple_mode \<times> bool \<times> rat" where
  "outcome s = (main_state s, simple_state s, c_start_ts s \<noteq> None, uv s)"

definition run_view :: "state \<Rightarrow> int \<times> int \<times> rat \<times> rat \<times> bool \<times> run_mode" where
  "run_view s = (c_run_current_loop s, c_run_current_step s, uv s, c_run_duration_sec s,
                 c_start_ts s \<noteq> None, run_state s)"

text \<open>
  The program of the scenario: 10 s at 30 %, then 500 ms at 90 %, twice. It is the only
  program of the file at start-up. \<open>pass\<close> is an input with the lid switch, the encoder
  reading, the clock and the button given, the file write succeeding.
\<close>

definition example_program :: program where
  "example_program = mk_program ''P-01'' 2 [mk_step 0 10 30, mk_step 2 500 90]"

definition example_boot :: boot where
  "example_boot = \<lparr>boot_file = ParsedList [example_program], boot_enc = 0, boot_ticks = 0,
                    boot_lid = 1, boot_neopixel = True\<rparr>"

definition pass :: "int \<Rightarrow> int \<Rightarrow> int \<Rightarrow> button \<Rightarrow> input" where
  "pass lid enc t b = \<lparr>in_enc = enc, in_now = t, in_lid = lid, in_btn = b, in_btn2 = Released,
                       in_clock = t, in_write = WriteOk\<rparr>"

text \<open>
  From start-up to the running example: turn to ``Custom Mode'' and press; press in the load
  list, which is active from the start since \<^verbatim>\<open>load_state\<close> begins as
  \<^verbatim>\<open>C_LOAD_SELECT\<close>; turn back to ``Run Program'' and press, at 300 ms.
\<close>

definition example_start :: "input list" where
  "example_start = [pass 1 1 100 Tap, pass 1 1 200 Tap, pass 1 0 300 Tap]"

text \<open>
  A state of the wizard at its save prompt, for the example: the program in the slot is a
  new dict at address 2 and carries the name of the stored program at address 1.
\<close>

definition example_saving :: state where
  "example_saving =
     (init example_boot)\<lparr>main_state := MODE_CUSTOM_CREATE, create_state := C_CREATE_SAVE_PROG,
       heap := (heap (init example_boot))(2 := mk_program ''P-01'' 1 [mk_step 0 60 50]),
       current_program := 2, heap_next := 3\<rparr>"

subsection \<open>Turning the encoder over several passes\<close>




subsection \<open>More example passes\<close>

text \<open>
  Simple mode from start-up: press on ``Simple Mode'', then through idle, unit, time and
  intensity with the defaults (60 s at 50 %); the run starts at 500 ms.
\<close>

definition example_simple_start :: "input list" where
  "example_simple_start =
     [pass 1 0 100 Tap, pass 1 0 200 Tap, pass 1 0 300 Tap, pass 1 0 400 Tap, pass 1 0 500 Tap]"

text \<open>
  Authoring from start-up: into the custom menu, a long press out of the load list, a turn to
  ``Create New'' and a press, then four presses through start, unit, time and intensity,
  which append the first step (unit 0, 60 s, 50 %) and leave the wizard at ``Add Another?''.
\<close>

definition example_authoring :: "input list" where
  "example_authoring =
     [pass 1 1 100 Tap, pass 1 1 200 Hold, pass 1 2 300 Tap,
      pass 1 2 400 Tap, pass 1 2 500 Tap, pass 1 2 600 Tap, pass 1 2 700 Tap]"

text \<open>The steps of the program in the current-program slot, and the stored programs.\<close>

definition slot_steps :: "state \<Rightarrow> step list option" where
  "slot_steps s = prog_steps (cur_prog s)"

definition store_contents :: "state \<Rightarrow> program list" where
  "store_contents s = map (heap s) (saved_programs s)"

subsection \<open>The walk of a custom run\<close>

text \<open>
  A pass sees the current step expired when the remaining time it computes is not positive.
  \<open>expiries\<close> counts the passes of a sequence that see an expiry.
\<close>

definition expired :: "input \<Rightarrow> state \<Rightarrow> bool" where
  "expired inp s =
     (case c_start_ts s of
        None \<Rightarrow> False
      | Some t0 \<Rightarrow> remain_sec (c_run_duration_sec s) (in_now inp) t0 \<le> 0)"

fun expiries :: "input list \<Rightarrow> state \<Rightarrow> nat" where
  "expiries [] s = 0"
| "expiries (inp # inps) s =
     (if expired inp s then 1 else 0) +
     (case tick inp s of Inr s' \<Rightarrow> expiries inps s' | Inl e \<Rightarrow> 0)"

text \<open>
  A step with its three keys; and the state of a run of the steps \<open>sts\<close> with \<open>L\<close> loops
  that is executing its step-execution number \<open>k\<close>, counted from 0, started at the stamp
  \<open>t\<close>: the loop is \<open>k div length sts + 1\<close>, the step \<open>k mod length sts\<close>, the output
  and the duration are those of that step, and the cursor is the stamp \<open>t\<close>.
\<close>

definition whole_step :: "step \<Rightarrow> bool" where
  "whole_step st \<longleftrightarrow> step_u st \<noteq> None \<and> step_v st \<noteq> None \<and> step_i st \<noteq> None"

definition run_at :: "step list \<Rightarrow> int \<Rightarrow> nat \<Rightarrow> int \<Rightarrow> state \<Rightarrow> bool" where
  "run_at sts L k t s \<longleftrightarrow>
     main_state s = MODE_CUSTOM_MENU \<and> load_state s = - 1 \<and>
     prog_steps (cur_prog s) = Some sts \<and> prog_loops (cur_prog s) = Some L \<and>
     c_start_ts s = Some t \<and>
     c_run_current_loop s = int (k div length sts) + 1 \<and>
     c_run_current_step s = int (k mod length sts) \<and>
     step_duty (sts ! (k mod length sts)) = Inr (uv s) \<and>
     get_duration_sec (sts ! (k mod length sts)) = Inr (c_run_duration_sec s)"

text \<open>
  The stamp a run started at \<open>t\<close> carries after the passes \<open>inps\<close>: the later clock reading
  (\<^verbatim>\<open>c_start_ts = time.ticks_ms()\<close>) of the last pass that saw an expiry, or \<open>t\<close> itself
  when none did.
\<close>

fun run_stamp :: "int \<Rightarrow> input list \<Rightarrow> state \<Rightarrow> int" where
  "run_stamp t [] s = t"
| "run_stamp t (inp # inps) s =
     (case tick inp s of
        Inr s' \<Rightarrow> run_stamp (if expired inp s then in_clock inp else t) inps s'
      | Inl e \<Rightarrow> t)"

definition run_finished :: "state \<Rightarrow> bool" where
  "run_finished s \<longleftrightarrow> uv s = 0 \<and> c_start_ts s = None \<and> run_state s = C_RUN_DONE"

text \<open>The first two passes of \<open>example_start\<close>: into the custom menu, and the load confirmed.\<close>

definition example_load :: "input list" where
  "example_load = [pass 1 1 100 Tap, pass 1 1 200 Tap]"

subsection \<open>Reachable states\<close>

text \<open>The states the script can be in at the top of its loop: after start-up, after a pass.\<close>

inductive reachable :: "state \<Rightarrow> bool" where
  boot: "reachable (init b)"
| pass: "reachable s \<Longrightarrow> tick inp s = Inr s' \<Longrightarrow> reachable s'"

text \<open>
  Two facts that hold of them. Simple mode is in its running state only while the mode is
  simple mode, and the output is off unless simple mode is running or a cursor exists. The
  wizard works on a dict that is not in the store, and every address in use is below
  \<open>heap_next\<close>.
\<close>

definition uv_inv :: "state \<Rightarrow> bool" where
  "uv_inv s \<longleftrightarrow>
     (if simple_state s = S_RUNNING then main_state s = MODE_SIMPLE
      else if c_start_ts s = None then uv s = 0 else True)"

definition slot_inv :: "state \<Rightarrow> bool" where
  "slot_inv s \<longleftrightarrow>
     list_all (\<lambda>a. a < heap_next s) (saved_programs s) \<and> current_program s < heap_next s \<and>
     (if main_state s = MODE_CUSTOM_CREATE
      then list_all (\<lambda>a. a \<noteq> current_program s) (saved_programs s) else True)"



section \<open>Properties\<close>

subsection \<open>Basic facts\<close>

lemma bind_r_simps [simp]: "bind_r (Inr x) f = f x" "bind_r (Inl e) f = Inl e"
  by (simp_all add: bind_r_def)

lemma bind_r_Inr_iff: "bind_r m f = Inr y \<longleftrightarrow> (\<exists>x. m = Inr x \<and> f x = Inr y)"
  by (cases m) simp_all

lemma py_key_simps [simp]: "py_key (Some x) = Inr x" "py_key None = Inl KeyError"
  by (simp_all add: py_key_def)

subsection \<open>Unit conversion and the two-step example\<close>

text \<open>
  C7. A step of unit 0 lasts its value in seconds, of unit 1 its value times 60, of unit 2
  its value over 1000; simple mode converts in the same way. The program with the steps
  (unit 0, 10, 30 %) and (unit 2, 500, 90 %) and two loops, started at 300 ms, runs 10 s at
  duty 3/10, 0.5 s at 9/10, 10 s at 3/10, 0.5 s at 9/10: each step is still running one
  millisecond before its duration has passed and is left at the pass that sees it passed,
  and the fourth expiry ends the run with the output off and the cursor gone.
\<close>

theorem to_seconds_and_example_run:
  "get_duration_sec (mk_step 0 val inten) = Inr (of_int val) \<and>
   get_duration_sec (mk_step 1 val inten) = Inr (of_int val * 60) \<and>
   get_duration_sec (mk_step 2 val inten) = Inr (of_int val / 1000) \<and>
   simple_duration (s\<lparr>s_current_time_unit_idx := 0, s_set_value := val\<rparr>) = of_int val \<and>
   simple_duration (s\<lparr>s_current_time_unit_idx := 1, s_set_value := val\<rparr>) = of_int val * 60 \<and>
   simple_duration (s\<lparr>s_current_time_unit_idx := 2, s_set_value := val\<rparr>) = of_int val / 1000 \<and>
   map_sum id run_view (ticks example_start (init example_boot))
     = Inr (1, 0, 3 / 10, 10, True, C_RUN_START) \<and>
   map_sum id run_view (ticks (example_start @ [pass 1 0 10299 Released]) (init example_boot))
     = Inr (1, 0, 3 / 10, 10, True, C_RUN_START) \<and>
   map_sum id run_view (ticks (example_start @ [pass 1 0 10300 Released]) (init example_boot))
     = Inr (1, 1, 9 / 10, 1 / 2, True, C_RUN_START) \<and>
   map_sum id run_view (ticks (example_start @ [pass 1 0 10300 Released, pass 1 0 10799 Released])
       (init example_boot))
     = Inr (1, 1, 9 / 10, 1 / 2, True, C_RUN_START) \<and>
   map_sum id run_view (ticks (example_start @ [pass 1 0 10300 Released, pass 1 0 10800 Released])
       (init example_boot))
     = Inr (2, 0, 3 / 10, 10, True, C_RUN_START) \<and>
   map_sum id run_view (ticks (example_start @ [pass 1 0 10300 Released, pass 1 0 10800 Released,
       pass 1 0 20800 Released]) (init example_boot))
     = Inr (2, 1, 9 / 10, 1 / 2, True, C_RUN_START) \<and>
   map_sum id run_view (ticks (example_start @ [pass 1 0 10300 Released, pass 1 0 10800 Released,
       pass 1 0 20800 Released, pass 1 0 21300 Released]) (init example_boot))
     = Inr (3, 0, 0, 1 / 2, False, C_RUN_DONE)"
proof -
  have conv: "get_duration_sec (mk_step 0 val inten) = Inr (of_int val)"
    "get_duration_sec (mk_step 1 val inten) = Inr (of_int val * 60)"
    "get_duration_sec (mk_step 2 val inten) = Inr (of_int val / 1000)"
    by (simp_all add: get_duration_sec_def mk_step_def)
  have simple_conv:
    "simple_duration (s\<lparr>s_current_time_unit_idx := 0, s_set_value := val\<rparr>) = of_int val"
    "simple_duration (s\<lparr>s_current_time_unit_idx := 1, s_set_value := val\<rparr>) = of_int val * 60"
    "simple_duration (s\<lparr>s_current_time_unit_idx := 2, s_set_value := val\<rparr>) = of_int val / 1000"
    by (simp_all add: simple_duration_def)
  have r0: "map_sum id run_view (ticks example_start (init example_boot))
     = Inr (1, 0, 3 / 10, 10, True, C_RUN_START)"
    by code_simp
  have r0': "map_sum id run_view (ticks (example_start @ [pass 1 0 10299 Released]) (init example_boot))
     = Inr (1, 0, 3 / 10, 10, True, C_RUN_START)"
    by code_simp
  have r1: "map_sum id run_view (ticks (example_start @ [pass 1 0 10300 Released]) (init example_boot))
     = Inr (1, 1, 9 / 10, 1 / 2, True, C_RUN_START)"
    by code_simp
  have r1': "map_sum id run_view (ticks (example_start @ [pass 1 0 10300 Released, pass 1 0 10799 Released])
       (init example_boot))
     = Inr (1, 1, 9 / 10, 1 / 2, True, C_RUN_START)"
    by code_simp
  have r2: "map_sum id run_view (ticks (example_start @ [pass 1 0 10300 Released, pass 1 0 10800 Released])
       (init example_boot))
     = Inr (2, 0, 3 / 10, 10, True, C_RUN_START)"
    by code_simp
  have r3: "map_sum id run_view (ticks (example_start @ [pass 1 0 10300 Released, pass 1 0 10800 Released,
       pass 1 0 20800 Released]) (init example_boot))
     = Inr (2, 1, 9 / 10, 1 / 2, True, C_RUN_START)"
    by code_simp
  have r4: "map_sum id run_view (ticks (example_start @ [pass 1 0 10300 Released, pass 1 0 10800 Released,
       pass 1 0 20800 Released, pass 1 0 21300 Released]) (init example_boot))
     = Inr (3, 0, 0, 1 / 2, False, C_RUN_DONE)"
    by code_simp
  show ?thesis
    using conv simple_conv r0 r0' r1 r1' r2 r3 r4 by (intro conjI)
qed

theorem to_seconds_and_example_run_witness:
  "get_duration_sec (mk_step 0 5 80) = Inr 5 \<and>
   get_duration_sec (mk_step 1 5 80) = Inr 300 \<and>
   get_duration_sec (mk_step 2 500 90) = Inr (1 / 2)"
  using to_seconds_and_example_run [of 5 80] to_seconds_and_example_run [of 500 90] by simp

subsection \<open>Persistence failures\<close>



subsection \<open>What the head of a pass leaves alone\<close>

lemma read_delta_fields [simp]:
  "main_state (snd (read_delta inp s)) = main_state s"
  "main_menu_idx (snd (read_delta inp s)) = main_menu_idx s"
  "simple_state (snd (read_delta inp s)) = simple_state s"
  "custom_menu_idx (snd (read_delta inp s)) = custom_menu_idx s"
  "create_state (snd (read_delta inp s)) = create_state s"
  "run_state (snd (read_delta inp s)) = run_state s"
  "load_state (snd (read_delta inp s)) = load_state s"
  "load_program_idx (snd (read_delta inp s)) = load_program_idx s"
  "s_current_time_unit_idx (snd (read_delta inp s)) = s_current_time_unit_idx s"
  "s_set_value (snd (read_delta inp s)) = s_set_value s"
  "s_set_int (snd (read_delta inp s)) = s_set_int s"
  "s_run_duration_sec (snd (read_delta inp s)) = s_run_duration_sec s"
  "s_start_ts (snd (read_delta inp s)) = s_start_ts s"
  "saved_programs (snd (read_delta inp s)) = saved_programs s"
  "current_program (snd (read_delta inp s)) = current_program s"
  "temp_step (snd (read_delta inp s)) = temp_step s"
  "temp_program_name (snd (read_delta inp s)) = temp_program_name s"
  "temp_program_loops (snd (read_delta inp s)) = temp_program_loops s"
  "c_run_duration_sec (snd (read_delta inp s)) = c_run_duration_sec s"
  "c_start_ts (snd (read_delta inp s)) = c_start_ts s"
  "c_run_current_step (snd (read_delta inp s)) = c_run_current_step s"
  "c_run_current_loop (snd (read_delta inp s)) = c_run_current_loop s"
  "temp_add_another (snd (read_delta inp s)) = temp_add_another s"
  "last_blink_ms (snd (read_delta inp s)) = last_blink_ms s"
  "blink_state_on (snd (read_delta inp s)) = blink_state_on s"
  "lid_was_open (snd (read_delta inp s)) = lid_was_open s"
  "uv (snd (read_delta inp s)) = uv s"
  "neopixel (snd (read_delta inp s)) = neopixel s"
  "disk (snd (read_delta inp s)) = disk s"
  "heap (snd (read_delta inp s)) = heap s"
  "heap_next (snd (read_delta inp s)) = heap_next s"
  by (simp_all add: read_delta_def Let_def)

lemma blink_step_fields [simp]:
  "main_state (blink_step c t s) = main_state s"
  "main_menu_idx (blink_step c t s) = main_menu_idx s"
  "simple_state (blink_step c t s) = simple_state s"
  "custom_menu_idx (blink_step c t s) = custom_menu_idx s"
  "create_state (blink_step c t s) = create_state s"
  "run_state (blink_step c t s) = run_state s"
  "load_state (blink_step c t s) = load_state s"
  "load_program_idx (blink_step c t s) = load_program_idx s"
  "last_enc (blink_step c t s) = last_enc s"
  "s_current_time_unit_idx (blink_step c t s) = s_current_time_unit_idx s"
  "s_set_value (blink_step c t s) = s_set_value s"
  "s_set_int (blink_step c t s) = s_set_int s"
  "s_run_duration_sec (blink_step c t s) = s_run_duration_sec s"
  "s_start_ts (blink_step c t s) = s_start_ts s"
  "saved_programs (blink_step c t s) = saved_programs s"
  "current_program (blink_step c t s) = current_program s"
  "temp_step (blink_step c t s) = temp_step s"
  "temp_program_name (blink_step c t s) = temp_program_name s"
  "temp_program_loops (blink_step c t s) = temp_program_loops s"
  "c_run_duration_sec (blink_step c t s) = c_run_duration_sec s"
  "c_start_ts (blink_step c t s) = c_start_ts s"
  "c_run_current_step (blink_step c t s) = c_run_current_step s"
  "c_run_current_loop (blink_step c t s) = c_run_current_loop s"
  "temp_add_another (blink_step c t s) = temp_add_another s"
  "uv (blink_step c t s) = uv s"
  "disk (blink_step c t s) = disk s"
  "heap (blink_step c t s) = heap s"
  "heap_next (blink_step c t s) = heap_next s"
  by (simp_all add: blink_step_def Let_def)

lemma indicator_fields [simp]:
  "main_state (indicator l t s) = main_state s"
  "main_menu_idx (indicator l t s) = main_menu_idx s"
  "simple_state (indicator l t s) = simple_state s"
  "custom_menu_idx (indicator l t s) = custom_menu_idx s"
  "create_state (indicator l t s) = create_state s"
  "run_state (indicator l t s) = run_state s"
  "load_state (indicator l t s) = load_state s"
  "load_program_idx (indicator l t s) = load_program_idx s"
  "last_enc (indicator l t s) = last_enc s"
  "s_current_time_unit_idx (indicator l t s) = s_current_time_unit_idx s"
  "s_set_value (indicator l t s) = s_set_value s"
  "s_set_int (indicator l t s) = s_set_int s"
  "s_run_duration_sec (indicator l t s) = s_run_duration_sec s"
  "s_start_ts (indicator l t s) = s_start_ts s"
  "saved_programs (indicator l t s) = saved_programs s"
  "current_program (indicator l t s) = current_program s"
  "temp_step (indicator l t s) = temp_step s"
  "temp_program_name (indicator l t s) = temp_program_name s"
  "temp_program_loops (indicator l t s) = temp_program_loops s"
  "c_run_duration_sec (indicator l t s) = c_run_duration_sec s"
  "c_start_ts (indicator l t s) = c_start_ts s"
  "c_run_current_step (indicator l t s) = c_run_current_step s"
  "c_run_current_loop (indicator l t s) = c_run_current_loop s"
  "temp_add_another (indicator l t s) = temp_add_another s"
  "uv (indicator l t s) = uv s"
  "disk (indicator l t s) = disk s"
  "heap (indicator l t s) = heap s"
  "heap_next (indicator l t s) = heap_next s"
  by (simp_all add: indicator_def)

lemma cur_prog_head [simp]:
  "cur_prog (snd (read_delta inp s)) = cur_prog s"
  "cur_prog (indicator l t s) = cur_prog s"
  by (simp_all add: cur_prog_def)

lemma tick_dispatch:
  "\<not> lid_stop_due (in_lid inp = 0) (snd (read_delta inp s)) \<Longrightarrow>
   tick inp s = dispatch (fst (read_delta inp s)) (in_lid inp = 0) inp
                  (indicator (in_lid inp = 0) (in_now inp) (snd (read_delta inp s)))"
  by (simp add: tick_def Let_def)

lemma lid_stop_due_head [simp]:
  "lid_stop_due l (snd (read_delta inp s)) = lid_stop_due l s"
  by (simp add: lid_stop_due_def)

subsection \<open>Saving a program\<close>

lemma find_name_first:
  "names_of h progs = Inr nms \<Longrightarrow> prog_name cur = Some cn \<Longrightarrow>
   find_name h cur progs k =
     Inr (if cn \<in> set nms then k + int (length (takeWhile (\<lambda>n. n \<noteq> cn) nms)) else - 1)"
proof (induction progs arbitrary: nms k)
  case Nil
  then show ?case by simp
next
  case (Cons a progs)
  from Cons.prems(1) obtain nm rest where
    nm: "prog_name (h a) = Some nm" and rest: "names_of h progs = Inr rest" and nms: "nms = nm # rest"
    by (cases "prog_name (h a)"; cases "names_of h progs") auto
  show ?case
    using Cons.IH [OF rest Cons.prems(2), of "k + 1"] nm nms Cons.prems(2) by simp
qed

lemma names_of_length: "names_of h progs = Inr nms \<Longrightarrow> length nms = length progs"
proof (induction progs arbitrary: nms)
  case Nil
  then show ?case by simp
next
  case (Cons a progs)
  then show ?case
    by (cases "prog_name (h a)"; cases "names_of h progs") auto
qed

lemma first_index_props:
  "cn \<in> set nms \<Longrightarrow>
   length (takeWhile (\<lambda>n. n \<noteq> cn) nms) < length nms \<and>
   nms ! length (takeWhile (\<lambda>n. n \<noteq> cn) nms) = cn"
  by (induction nms) auto

text \<open>
  C5. The pass that confirms the save prompt, for a store whose programs all carry a name
  and a current program named \<open>cn\<close>: when a stored program is named \<open>cn\<close>, the first
  such entry is replaced in place by the current program, the list keeping its length and
  its other entries; when none is, the current program is appended and the list is one
  longer. In both cases the whole list is what is written to the file when the write
  succeeds.
\<close>

theorem save_replaces_or_appends:
  assumes "main_state s = MODE_CUSTOM_CREATE" and "create_state s = C_CREATE_SAVE_PROG"
    and "in_btn inp = Tap"
    and "names_of (heap s) (saved_programs s) = Inr nms"
    and "prog_name (cur_prog s) = Some cn"
  shows "\<exists>s'. tick inp s = Inr s' \<and> heap s' = heap s \<and> current_program s' = current_program s \<and>
     main_state s' = MODE_CUSTOM_MENU \<and>
     (cn \<in> set nms \<longrightarrow>
        length (takeWhile (\<lambda>n. n \<noteq> cn) nms) < length (saved_programs s) \<and>
        nms ! length (takeWhile (\<lambda>n. n \<noteq> cn) nms) = cn \<and>
        saved_programs s' =
          (saved_programs s)[length (takeWhile (\<lambda>n. n \<noteq> cn) nms) := current_program s] \<and>
        length (saved_programs s') = length (saved_programs s)) \<and>
     (cn \<notin> set nms \<longrightarrow>
        saved_programs s' = saved_programs s @ [current_program s] \<and>
        length (saved_programs s') = Suc (length (saved_programs s))) \<and>
     (in_write inp = WriteOk \<longrightarrow> disk s' = ParsedList (map (heap s') (saved_programs s')))"
proof -
  let ?s1 = "indicator (in_lid inp = 0) (in_now inp) (snd (read_delta inp s))"
  let ?k = "length (takeWhile (\<lambda>n. n \<noteq> cn) nms)"
  have no_stop: "\<not> lid_stop_due (in_lid inp = 0) (snd (read_delta inp s))"
    using assms(1) by (simp add: lid_stop_due_def)
  have t: "tick inp s = save_confirm inp ?s1"
    using assms(1,2,3) by (simp add: tick_dispatch [OF no_stop] dispatch_def custom_create_def create_confirm_def)
  have f: "find_name (heap ?s1) (cur_prog ?s1) (saved_programs ?s1) 0 =
      Inr (if cn \<in> set nms then int ?k else - 1)"
    using find_name_first [of "heap s" "saved_programs s" nms "cur_prog s" cn 0] assms(4,5) by simp
  have len: "length nms = length (saved_programs s)"
    using names_of_length [OF assms(4)] .
  show ?thesis
  proof (cases "cn \<in> set nms")
    case True
    then show ?thesis
      using t f len first_index_props [OF True]
      by (simp add: save_confirm_def store_program_def Let_def save_programs_to_file_def save_body_def)
  next
    case False
    then show ?thesis
      using t f
      by (simp add: save_confirm_def store_program_def Let_def save_programs_to_file_def save_body_def)
  qed
qed


theorem save_replaces_or_appends_witness:
  "map_sum id (\<lambda>s'. (saved_programs s', main_state s', disk s')) (tick (pass 1 0 0 Tap) example_saving)
     = Inr ([2], MODE_CUSTOM_MENU, ParsedList [mk_program ''P-01'' 1 [mk_step 0 60 50]])"
proof -
  have h: "main_state example_saving = MODE_CUSTOM_CREATE"
    "create_state example_saving = C_CREATE_SAVE_PROG"
    "in_btn (pass 1 0 0 Tap) = Tap"
    "names_of (heap example_saving) (saved_programs example_saving) = Inr [''P-01'']"
    "prog_name (cur_prog example_saving) = Some ''P-01''"
    by (simp_all add: example_saving_def init_def example_boot_def example_program_def pass_def
        load_programs_from_file_def load_body_def mk_program_def cur_prog_def Let_def)
  have saved: "saved_programs example_saving = [1]" "current_program example_saving = 2"
    "heap example_saving 2 = mk_program ''P-01'' 1 [mk_step 0 60 50]"
    "in_write (pass 1 0 0 Tap) = WriteOk"
    by (simp_all add: example_saving_def init_def example_boot_def example_program_def pass_def
        load_programs_from_file_def load_body_def Let_def)
  from save_replaces_or_appends [OF h] saved show ?thesis
    by auto
qed

subsection \<open>Settings stay in their ranges\<close>














subsection \<open>The lid stop\<close>

lemma read_delta_snd: "snd (read_delta inp s) = s\<lparr>last_enc := in_enc inp\<rparr>"
  by (simp add: read_delta_def Let_def)

lemma read_delta_fst: "fst (read_delta inp s) = in_enc inp - last_enc s"
  by (simp add: read_delta_def Let_def)

text \<open>
  The stop where its test holds. A pass with the lid open, while the mode is simple mode in
  its running state or the mode is the custom menu with a run cursor, ends at once with the
  output off, the mode main menu, the simple state idle and the cursor gone; nothing else of
  the pass is executed: apart from the encoder reading taken at its top, no other global
  changes.
\<close>

theorem lid_open_stops_run:
  assumes "in_lid inp = 0"
    and "(main_state s = MODE_SIMPLE \<and> simple_state s = S_RUNNING) \<or>
         (main_state s = MODE_CUSTOM_MENU \<and> c_start_ts s \<noteq> None)"
  shows "tick inp s = Inr (s\<lparr>last_enc := in_enc inp, uv := 0, main_state := MODE_MAIN_MENU,
                               simple_state := S_IDLE, c_start_ts := None\<rparr>)"
proof -
  have "lid_stop_due (in_lid inp = 0) (snd (read_delta inp s))"
    using assms by (simp add: lid_stop_due_def)
  then show ?thesis
    by (simp add: tick_def Let_def lid_stop_def read_delta_snd)
qed

theorem lid_open_stops_run_witness:
  "map_sum id outcome (ticks example_start (init example_boot)) = Inr (MODE_CUSTOM_MENU, S_IDLE, True, 3 / 10) \<and>
   map_sum id outcome (tick (pass 0 0 400 Released) (projr (ticks example_start (init example_boot))))
     = Inr (MODE_MAIN_MENU, S_IDLE, False, 0)"
proof -
  have a: "map_sum id outcome (ticks example_start (init example_boot)) = Inr (MODE_CUSTOM_MENU, S_IDLE, True, 3 / 10)"
    by code_simp
  have h1: "in_lid (pass 0 0 400 Released) = 0" by (simp add: pass_def)
  have h2: "main_state (projr (ticks example_start (init example_boot))) = MODE_CUSTOM_MENU"
    by code_simp
  have h3: "c_start_ts (projr (ticks example_start (init example_boot))) \<noteq> None"
    by code_simp
  show ?thesis
    using a lid_open_stops_run [OF h1 disjI2 [OF conjI [OF h2 h3]]] by (simp add: outcome_def)
qed

text \<open>
  C1. A pass with the lid open does not always stop a run whose cursor exists. The test
  (\<^verbatim>\<open>main_state == MODE_CUSTOM_MENU and c_start_ts is not None\<close>) reads the cursor only in
  the custom menu mode, under the comments \<^verbatim>\<open>Check for emergency stop on lid open\<close> and
  \<^verbatim>\<open>Stop UV immediately!\<close>. From start-up, the example run is started and a long press in
  the pass that sees its first step expired leaves the mode at the main menu with a cursor
  and the output at 9/10; the next pass has the lid open, and after it the output is still
  at 9/10, the cursor still exists.
\<close>

theorem lid_open_leaves_restarted_run:
  "map_sum id outcome (ticks (example_start @ [pass 1 0 10300 Hold]) (init example_boot))
     = Inr (MODE_MAIN_MENU, S_IDLE, True, 9 / 10) \<and>
   map_sum id outcome (ticks (example_start @ [pass 1 0 10300 Hold, pass 0 0 10400 Released])
       (init example_boot))
     = Inr (MODE_MAIN_MENU, S_IDLE, True, 9 / 10)"
  by code_simp

subsection \<open>Cancelling at an expiry\<close>

text \<open>
  C3. A long press one millisecond before the expiry of a step cancels the run. A long press
  in the pass that also sees the step expired does not: in the custom run the handler
  cancels and then starts the second step, so the pass ends in the main menu with the
  output at 9/10 and a cursor; in simple mode it ends in the main menu with the simple state
  done instead of idle.
\<close>

theorem cancel_at_expiry:
  "map_sum id outcome (ticks (example_start @ [pass 1 0 10299 Hold]) (init example_boot))
     = Inr (MODE_MAIN_MENU, S_IDLE, False, 0) \<and>
   map_sum id outcome (ticks (example_start @ [pass 1 0 10300 Hold]) (init example_boot))
     = Inr (MODE_MAIN_MENU, S_IDLE, True, 9 / 10) \<and>
   map_sum id outcome (ticks example_simple_start (init example_boot))
     = Inr (MODE_SIMPLE, S_RUNNING, False, 1 / 2) \<and>
   map_sum id outcome (ticks (example_simple_start @ [pass 1 0 60499 Hold]) (init example_boot))
     = Inr (MODE_MAIN_MENU, S_IDLE, False, 0) \<and>
   map_sum id outcome (ticks (example_simple_start @ [pass 1 0 60500 Hold]) (init example_boot))
     = Inr (MODE_MAIN_MENU, S_DONE, False, 0)"
  by code_simp

subsection \<open>The walk of a custom run\<close>

lemma custom_load_idle: "load_state s = - 1 \<Longrightarrow> custom_load d b s = Inr s"
  by (simp add: custom_load_def)

lemma tick_run:
  assumes "main_state s = MODE_CUSTOM_MENU" and "c_start_ts s = Some t0" and "in_lid inp \<noteq> 0"
  shows "tick inp s =
     bind_r (custom_run t0 inp (indicator False (in_now inp) (snd (read_delta inp s))))
       (custom_load (fst (read_delta inp s)) (in_btn2 inp))"
proof -
  have "\<not> lid_stop_due (in_lid inp = 0) (snd (read_delta inp s))"
    using assms(3) by (simp add: lid_stop_due_def)
  from tick_dispatch [OF this] show ?thesis
    using assms by (simp add: dispatch_def custom_menu_def)
qed

lemma py_nth_nat: "k < length xs \<Longrightarrow> py_nth xs (int k) = Inr (xs ! k)"
  by (simp add: py_nth_def Let_def)

lemma whole_step_results:
  assumes "whole_step st"
  shows "\<exists>inten duty dur. step_i st = Some inten \<and> step_duty st = Inr duty \<and> get_duration_sec st = Inr dur"
proof -
  from assms obtain un va inten where
    k: "step_u st = Some un" "step_v st = Some va" "step_i st = Some inten"
    by (auto simp: whole_step_def)
  have "step_duty st = Inr (of_int inten / 100)"
    using k by (simp add: step_duty_def)
  moreover have "get_duration_sec st =
      Inr (if un = 0 then of_int va else if un = 1 then of_int (va * 60)
           else if un = 2 then of_int va / 1000 else 0)"
    using k by (simp add: get_duration_sec_def)
  ultimately show ?thesis using k(3) by blast
qed

lemma start_step_at:
  assumes "prog_steps (cur_prog s) = Some sts" and "c_run_current_step s = int j" and "j < length sts"
    and "whole_step (sts ! j)"
  shows "\<exists>duty dur. step_duty (sts ! j) = Inr duty \<and> get_duration_sec (sts ! j) = Inr dur \<and>
     start_step inp s = Inr (s\<lparr>uv := duty, c_run_duration_sec := dur, c_start_ts := Some (in_clock inp)\<rparr>)"
proof -
  from whole_step_results [OF assms(4)] obtain inten duty dur where
    r: "step_i (sts ! j) = Some inten" "step_duty (sts ! j) = Inr duty" "get_duration_sec (sts ! j) = Inr dur"
    by blast
  show ?thesis
    using assms(1,2) r py_nth_nat [OF assms(3)] by (simp add: start_step_def)
qed

lemma Suc_divmod_in:
  "Suc (k mod n) < n \<Longrightarrow> Suc k mod n = Suc (k mod n) \<and> Suc k div n = k div n"
  by (simp add: mod_Suc div_Suc)

lemma Suc_divmod_wrap:
  "0 < n \<Longrightarrow> \<not> Suc (k mod n) < n \<Longrightarrow> Suc k mod n = 0 \<and> Suc k div n = Suc (k div n)"
proof -
  assume n: "0 < n" and w: "\<not> Suc (k mod n) < n"
  have "k mod n < n" using n by simp
  with w have e: "Suc (k mod n) = n" by linarith
  then show ?thesis by (simp add: mod_Suc div_Suc)
qed

lemma last_execution:
  assumes "0 < n" and "k < m * n" and "\<not> Suc (k mod n) < n"
  shows "Suc k = m * n \<longleftrightarrow> Suc (k div n) = m" and "Suc (k div n) \<le> m"
proof -
  have "k mod n < n" using assms(1) by simp
  with assms(3) have e: "Suc (k mod n) = n" by linarith
  have d: "k div n < m" using assms(1,2) by (simp add: less_mult_imp_div_less)
  then show "Suc (k div n) \<le> m" by simp
  have "k = k div n * n + k mod n" by simp
  then have "Suc k = k div n * n + Suc (k mod n)" by linarith
  then have "Suc k = k div n * n + n" using e by linarith
  then have sk: "Suc k = Suc (k div n) * n" by simp
  have "Suc (k div n) * n = m * n \<longleftrightarrow> Suc (k div n) = m"
    using assms(1) by (simp del: mult_Suc)
  then show "Suc k = m * n \<longleftrightarrow> Suc (k div n) = m"
    by (subst sk)
qed


lemma run_step:
  assumes at: "run_at sts L k t s" and ne: "sts \<noteq> []" and whole: "list_all whole_step sts"
    and k: "k < nat L * length sts"
    and btn: "in_btn inp \<noteq> Hold" and lid: "in_lid inp \<noteq> 0"
  shows "\<exists>s'. tick inp s = Inr s' \<and>
    (if expired inp s
     then (if Suc k < nat L * length sts then run_at sts L (Suc k) (in_clock inp) s'
           else run_finished s')
     else run_at sts L k t s')"
proof -
  let ?n = "length sts"
  let ?s1 = "indicator False (in_now inp) (snd (read_delta inp s))"
  from at have m: "main_state s = MODE_CUSTOM_MENU" and ld: "load_state s = - 1"
    and ps: "prog_steps (cur_prog s) = Some sts" and pl: "prog_loops (cur_prog s) = Some L"
    and t0: "c_start_ts s = Some t"
    and loop: "c_run_current_loop s = int (k div ?n) + 1"
    and stp: "c_run_current_step s = int (k mod ?n)"
    and duty: "step_duty (sts ! (k mod ?n)) = Inr (uv s)"
    and dur: "get_duration_sec (sts ! (k mod ?n)) = Inr (c_run_duration_sec s)"
    by (simp_all add: run_at_def)
  have n: "0 < ?n" using ne by simp
  have j: "k mod ?n < ?n" using n by simp
  have wj: "whole_step (sts ! (k mod ?n))" using whole j by (simp add: list_all_length)
  from whole_step_results [OF wj] obtain inten where inten: "step_i (sts ! (k mod ?n)) = Some inten"
    by blast
  have t: "tick inp s = bind_r (custom_run t inp ?s1) (custom_load (fst (read_delta inp s)) (in_btn2 inp))"
    using tick_run [OF m t0 lid] .
  have run: "custom_run t inp ?s1 = (if expired inp s then custom_advance inp ?s1 else Inr ?s1)"
    using ps pl stp inten t0 btn py_nth_nat [OF j]
    by (simp add: custom_run_def Let_def expired_def)
  show ?thesis
  proof (cases "expired inp s")
    case False
    have "run_at sts L k t ?s1" using at by (simp add: run_at_def)
    then show ?thesis using t run False ld by (simp add: custom_load_idle)
  next
    case True
    show ?thesis
    proof (cases "Suc (k mod ?n) < ?n")
      case inside: True
      let ?s2 = "?s1\<lparr>c_run_current_step := int (k mod ?n) + 1\<rparr>"
      have w2: "whole_step (sts ! Suc (k mod ?n))" using whole inside by (simp add: list_all_length)
      have "prog_steps (cur_prog ?s2) = Some sts" "c_run_current_step ?s2 = int (Suc (k mod ?n))"
        using ps by (simp_all add: cur_prog_def)
      from start_step_at [OF this inside w2, of inp] obtain duty' dur' where
        d: "step_duty (sts ! Suc (k mod ?n)) = Inr duty'" "get_duration_sec (sts ! Suc (k mod ?n)) = Inr dur'"
        "start_step inp ?s2 = Inr (?s2\<lparr>uv := duty', c_run_duration_sec := dur', c_start_ts := Some (in_clock inp)\<rparr>)"
        by blast
      have adv: "custom_advance inp ?s1 = start_step inp ?s2"
        using ps stp inside by (simp add: custom_advance_def Let_def)
      have dm: "Suc k mod ?n = Suc (k mod ?n)" "Suc k div ?n = k div ?n"
        using Suc_divmod_in [OF inside] by simp_all
      have lt: "Suc k < nat L * ?n"
      proof -
        have "k div ?n < nat L" using n k by (simp add: less_mult_imp_div_less)
        then have "Suc (k div ?n) \<le> nat L" by simp
        then have c: "Suc (k div ?n) * ?n \<le> nat L * ?n" by (rule mult_le_mono1)
        have a: "k = k div ?n * ?n + k mod ?n" by simp
        have b: "Suc (k div ?n) * ?n = k div ?n * ?n + ?n" by simp
        from a b c inside show ?thesis by linarith
      qed
      have "run_at sts L (Suc k) (in_clock inp)
          (?s2\<lparr>uv := duty', c_run_duration_sec := dur', c_start_ts := Some (in_clock inp)\<rparr>)"
        using m ld ps pl loop d(1,2) dm by (simp add: run_at_def cur_prog_def)
      then show ?thesis
        using t run True adv d(3) lt ld by (simp add: custom_load_idle)
    next
      case wrap: False
      have dm: "Suc k mod ?n = 0" "Suc k div ?n = Suc (k div ?n)"
        using Suc_divmod_wrap [OF n wrap] by simp_all
      have le: "Suc (k div ?n) \<le> nat L" and lastq: "Suc k = nat L * ?n \<longleftrightarrow> Suc (k div ?n) = nat L"
        using last_execution [OF n k wrap] by simp_all
      let ?s2 = "?s1\<lparr>c_run_current_step := 0, c_run_current_loop := int (k div ?n) + 1 + 1\<rparr>"
      have adv: "custom_advance inp ?s1 =
          (if int (k div ?n) + 1 + 1 > L then Inr (custom_finish (in_now inp) ?s2) else start_step inp ?s2)"
        using ps pl stp loop wrap by (simp add: custom_advance_def Let_def)
      show ?thesis
      proof (cases "Suc k < nat L * ?n")
        case more: True
        then have "Suc (k div ?n) < nat L" using le lastq by linarith
        then have nl: "\<not> int (k div ?n) + 1 + 1 > L" by linarith
        have w0: "whole_step (sts ! 0)" using whole n by (simp add: list_all_length)
        have "prog_steps (cur_prog ?s2) = Some sts" "c_run_current_step ?s2 = int 0"
          using ps by (simp_all add: cur_prog_def)
        from start_step_at [OF this n w0, of inp] obtain duty' dur' where
          d: "step_duty (sts ! 0) = Inr duty'" "get_duration_sec (sts ! 0) = Inr dur'"
          "start_step inp ?s2 = Inr (?s2\<lparr>uv := duty', c_run_duration_sec := dur', c_start_ts := Some (in_clock inp)\<rparr>)"
          by blast
        have "run_at sts L (Suc k) (in_clock inp)
            (?s2\<lparr>uv := duty', c_run_duration_sec := dur', c_start_ts := Some (in_clock inp)\<rparr>)"
          using m ld ps pl d(1,2) dm by (simp add: run_at_def cur_prog_def)
        then show ?thesis
          using t run True adv nl d(3) more ld by (simp add: custom_load_idle)
      next
        case fin: False
        have "Suc (k div ?n) = nat L" using k lastq fin by linarith
        then have gt: "int (k div ?n) + 1 + 1 > L" by linarith
        have "run_finished (custom_finish (in_now inp) ?s2)"
          by (simp add: run_finished_def custom_finish_def)
        moreover have "load_state (custom_finish (in_now inp) ?s2) = - 1"
          using ld by (simp add: custom_finish_def)
        ultimately show ?thesis
          using t run True adv gt fin by (simp add: custom_load_idle)
      qed
    qed
  qed
qed

lemma run_walk_gen:
  assumes ne: "sts \<noteq> []" and whole: "list_all whole_step sts"
  shows "run_at sts L k t s \<Longrightarrow> (\<forall>inp\<in>set inps. in_btn inp \<noteq> Hold \<and> in_lid inp \<noteq> 0) \<Longrightarrow>
    k + expiries (butlast inps) s < nat L * length sts \<Longrightarrow>
    \<exists>s'. ticks inps s = Inr s' \<and> k + expiries inps s \<le> nat L * length sts \<and>
      (if k + expiries inps s < nat L * length sts
       then run_at sts L (k + expiries inps s) (run_stamp t inps s) s' else run_finished s')"
proof (induction inps arbitrary: s k t)
  case Nil
  then show ?case by simp
next
  case (Cons inp inps)
  let ?N = "nat L * length sts"
  let ?e = "if expired inp s then 1 else 0 :: nat"
  let ?t1 = "if expired inp s then in_clock inp else t"
  have k: "k < ?N" using Cons.prems(3) by linarith
  have ok: "in_btn inp \<noteq> Hold" "in_lid inp \<noteq> 0" using Cons.prems(2) by simp_all
  from run_step [OF Cons.prems(1) ne whole k ok] obtain s1 where
    t: "tick inp s = Inr s1" and
    r: "if expired inp s
        then (if Suc k < ?N then run_at sts L (Suc k) (in_clock inp) s1 else run_finished s1)
        else run_at sts L k t s1"
    by blast
  show ?case
  proof (cases "inps = []")
    case True
    then show ?thesis using t r k by (cases "expired inp s") auto
  next
    case False
    then have bl: "butlast (inp # inps) = inp # butlast inps" by simp
    have lt: "k + ?e + expiries (butlast inps) s1 < ?N"
      using Cons.prems(3) t unfolding bl by simp
    then have ke: "k + ?e < ?N" by linarith
    have at1: "run_at sts L (k + ?e) ?t1 s1"
      using r ke by (cases "expired inp s") simp_all
    have rest: "\<forall>inp\<in>set inps. in_btn inp \<noteq> Hold \<and> in_lid inp \<noteq> 0"
      using Cons.prems(2) by simp
    from Cons.IH [OF at1 rest lt] obtain s' where
      s': "ticks inps s1 = Inr s'" "k + ?e + expiries inps s1 \<le> ?N"
      "if k + ?e + expiries inps s1 < ?N
       then run_at sts L (k + ?e + expiries inps s1) (run_stamp ?t1 inps s1) s' else run_finished s'"
      by blast
    have ex: "k + expiries (inp # inps) s = k + ?e + expiries inps s1"
      using t by simp
    have st: "run_stamp t (inp # inps) s = run_stamp ?t1 inps s1"
      using t by simp
    show ?thesis
      using s' t unfolding ex st by simp
  qed
qed

text \<open>
  C2. A run of the steps \<open>sts\<close> (each with its three keys) with \<open>L\<close> loops that has just
  started, at the stamp \<open>t\<close>, over passes with the lid closed and no long press, up to and
  including the pass of the last expiry: every pass returns; after \<open>k\<close> expiries with \<open>k\<close>
  below \<open>L\<close> times the number of steps the run is at loop \<open>k div length sts + 1\<close>, step
  \<open>k mod length sts\<close>, with the duty and duration of that step, and its cursor is the new
  stamp taken by the pass of the last expiry (\<open>t\<close> while none has expired); at expiry number
  \<open>L\<close> times the number of steps, and not before, it is finished: output off, cursor gone,
  runner done.
\<close>

theorem custom_run_walk:
  assumes "run_at sts L 0 t s" and "sts \<noteq> []" and "list_all whole_step sts"
    and "\<forall>inp\<in>set inps. in_btn inp \<noteq> Hold \<and> in_lid inp \<noteq> 0"
    and "expiries (butlast inps) s < nat L * length sts"
  shows "\<exists>s'. ticks inps s = Inr s' \<and> expiries inps s \<le> nat L * length sts \<and>
    (expiries inps s < nat L * length sts \<longrightarrow>
       run_at sts L (expiries inps s) (run_stamp t inps s) s') \<and>
    (expiries inps s = nat L * length sts \<longrightarrow> run_finished s')"
proof -
  have "\<exists>s'. ticks inps s = Inr s' \<and> 0 + expiries inps s \<le> nat L * length sts \<and>
      (if 0 + expiries inps s < nat L * length sts
       then run_at sts L (0 + expiries inps s) (run_stamp t inps s) s' else run_finished s')"
    by (rule run_walk_gen [OF assms(2,3,1,4)]) (simp add: assms(5))
  then show ?thesis by (auto split: if_splits)
qed

theorem custom_run_walk_witness:
  "expiries [pass 1 0 10300 Released, pass 1 0 10800 Tap, pass 1 0 20799 Released]
     (projr (ticks example_start (init example_boot))) = 2 \<and>
   (\<exists>s'. ticks [pass 1 0 10300 Released, pass 1 0 10800 Tap, pass 1 0 20799 Released]
       (projr (ticks example_start (init example_boot))) = Inr s' \<and>
      run_at [mk_step 0 10 30, mk_step 2 500 90] 2 2 10800 s') \<and>
   expiries [pass 1 0 10300 Released, pass 1 0 10800 Tap, pass 1 0 20799 Released,
       pass 1 0 20800 Released, pass 1 0 21300 Released]
     (projr (ticks example_start (init example_boot))) = 4 \<and>
   (\<exists>s'. ticks [pass 1 0 10300 Released, pass 1 0 10800 Tap, pass 1 0 20799 Released,
       pass 1 0 20800 Released, pass 1 0 21300 Released]
     (projr (ticks example_start (init example_boot))) = Inr s' \<and> run_finished s')"
proof -
  let ?s = "projr (ticks example_start (init example_boot))"
  let ?sts = "[mk_step 0 10 30, mk_step 2 500 90]"
  let ?part = "[pass 1 0 10300 Released, pass 1 0 10800 Tap, pass 1 0 20799 Released]"
  let ?inps = "[pass 1 0 10300 Released, pass 1 0 10800 Tap, pass 1 0 20799 Released,
       pass 1 0 20800 Released, pass 1 0 21300 Released]"
  have h1: "run_at ?sts 2 0 300 ?s" by code_simp
  have h2: "?sts \<noteq> []" by simp
  have h3: "list_all whole_step ?sts" by (simp add: whole_step_def mk_step_def)
  have h4: "\<forall>inp\<in>set ?inps. in_btn inp \<noteq> Hold \<and> in_lid inp \<noteq> 0" by (simp add: pass_def)
  have h4': "\<forall>inp\<in>set ?part. in_btn inp \<noteq> Hold \<and> in_lid inp \<noteq> 0" by (simp add: pass_def)
  have h5: "expiries (butlast ?inps) ?s < nat 2 * length ?sts" by code_simp
  have h5': "expiries (butlast ?part) ?s < nat 2 * length ?sts" by code_simp
  have e: "expiries ?inps ?s = 4" by code_simp
  have e': "expiries ?part ?s = 2" by code_simp
  have st: "run_stamp 300 ?part ?s = 10800" by code_simp
  from custom_run_walk [OF h1 h2 h3 h4' h5'] e' st
  have a: "\<exists>s'. ticks ?part ?s = Inr s' \<and> run_at ?sts 2 2 10800 s'" by auto
  from custom_run_walk [OF h1 h2 h3 h4 h5] e
  have b: "\<exists>s'. ticks ?inps ?s = Inr s' \<and> run_finished s'" by auto
  show ?thesis using a b e e' by simp
qed

subsection \<open>Cancelling the wizard\<close>

lemma py_nth_custom_menu_items:
  "0 \<le> k \<Longrightarrow> k < 3 \<Longrightarrow> \<exists>item. py_nth custom_menu_items k = Inr item"
  by (simp add: py_nth_def custom_menu_items_def Let_def)

lemma nav_run_starts:
  assumes "main_state s = MODE_CUSTOM_MENU" and "c_start_ts s = None"
    and "run_state s \<noteq> C_RUN_DONE" and "load_state s = - 1"
    and "custom_menu_idx s = C_MENU_CREATE" and "last_enc s < in_enc inp"
    and "in_btn inp = Tap" and "in_lid inp \<noteq> 0"
    and "prog_steps (cur_prog s) = Some (st # sts)" and "whole_step st"
  shows "\<exists>s'. tick inp s = Inr s' \<and> main_state s' = MODE_CUSTOM_MENU \<and>
    c_start_ts s' = Some (in_clock inp) \<and> step_duty st = Inr (uv s') \<and>
    get_duration_sec st = Inr (c_run_duration_sec s') \<and>
    c_run_current_step s' = 0 \<and> c_run_current_loop s' = 1 \<and> cur_prog s' = cur_prog s"
proof -
  let ?s1 = "indicator False (in_now inp) (snd (read_delta inp s))"
  let ?s2 = "?s1\<lparr>custom_menu_idx := C_MENU_RUN\<rparr>"
  let ?s3 = "?s2\<lparr>run_state := C_RUN_START, c_run_current_step := 0, c_run_current_loop := 1\<rparr>"
  have d: "fst (read_delta inp s) > 0" using assms(6) by (simp add: read_delta_fst)
  have "\<not> lid_stop_due (in_lid inp = 0) (snd (read_delta inp s))"
    using assms(8) by (simp add: lid_stop_due_def)
  from tick_dispatch [OF this]
  have t: "tick inp s = custom_menu (fst (read_delta inp s)) False inp ?s1"
    using assms(1,8) by (simp add: dispatch_def)
  have w: "wrap_idx (int (length custom_menu_items)) (custom_menu_idx ?s1) (fst (read_delta inp s)) = C_MENU_RUN"
    using assms(5) d by (simp add: wrap_idx_def dir_def custom_menu_items_def C_MENU_CREATE_def C_MENU_RUN_def)
  have ps3: "prog_steps (cur_prog ?s3) = Some (st # sts)" "c_run_current_step ?s3 = int 0"
    using assms(9) by (simp_all add: cur_prog_def)
  from start_step_at [OF ps3, of inp] assms(10) obtain duty dur where
    r: "step_duty st = Inr duty" "get_duration_sec st = Inr dur"
    "start_step inp ?s3 = Inr (?s3\<lparr>uv := duty, c_run_duration_sec := dur, c_start_ts := Some (in_clock inp)\<rparr>)"
    by auto
  have ntr: "\<not> nothing_to_run ?s2"
    using assms(9) by (auto simp: nothing_to_run_def cur_prog_def empty_program_def)
  have nc: "nav_confirm inp ?s2 = start_step inp ?s3"
    using ntr by (simp add: nav_confirm_def C_MENU_LOAD_def C_MENU_CREATE_def C_MENU_RUN_def)
  have nav: "custom_nav (fst (read_delta inp s)) False inp ?s1 =
      Inr (False, ?s3\<lparr>uv := duty, c_run_duration_sec := dur, c_start_ts := Some (in_clock inp)\<rparr>)"
    using d w assms(7) nc r(3) by (simp add: custom_nav_def Let_def)
  have "tick inp s = Inr (?s3\<lparr>uv := duty, c_run_duration_sec := dur, c_start_ts := Some (in_clock inp)\<rparr>)"
    using t nav assms(2,3,4) by (simp add: custom_menu_def custom_load_idle)
  then show ?thesis
    using r(1,2) assms(1) by (simp add: cur_prog_def)
qed

text \<open>
  C8, as the code has it. A long press in any wizard state returns to the custom menu and
  resets the wizard to its start state; the current-program slot, the heap and the store
  are as before, so the slot still holds the steps authored so far. When that program has a
  first step with its three keys, the next pass that turns the menu from ``Create New'' to
  ``Run Program'' and presses, lid closed, starts it: cursor set, output at the duty of the
  first step.
\<close>

theorem wizard_cancel_keeps_program:
  assumes "main_state s = MODE_CUSTOM_CREATE" and "in_btn inp = Hold"
    and "py_nth custom_menu_items (custom_menu_idx s) = Inr item"
  shows "\<exists>s'. tick inp s = Inr s' \<and> main_state s' = MODE_CUSTOM_MENU \<and>
      create_state s' = C_CREATE_START \<and> current_program s' = current_program s \<and>
      heap s' = heap s \<and> slot_steps s' = slot_steps s \<and> saved_programs s' = saved_programs s \<and>
      uv s' = uv s \<and> c_start_ts s' = c_start_ts s \<and>
      (custom_menu_idx s = C_MENU_CREATE \<and> c_start_ts s = None \<and> run_state s \<noteq> C_RUN_DONE \<and>
       load_state s = - 1 \<and> slot_steps s = Some (st # sts) \<and> whole_step st \<and>
       in_enc inp < in_enc inp2 \<and> in_btn inp2 = Tap \<and> in_lid inp2 \<noteq> 0 \<longrightarrow>
       (\<exists>s''. tick inp2 s' = Inr s'' \<and> main_state s'' = MODE_CUSTOM_MENU \<and>
          c_start_ts s'' = Some (in_clock inp2) \<and> step_duty st = Inr (uv s'') \<and>
          get_duration_sec st = Inr (c_run_duration_sec s'') \<and> slot_steps s'' = Some (st # sts)))"
proof -
  let ?s1 = "indicator (in_lid inp = 0) (in_now inp) (snd (read_delta inp s))"
  let ?s' = "?s1\<lparr>main_state := MODE_CUSTOM_MENU, create_state := C_CREATE_START\<rparr>"
  have "\<not> lid_stop_due (in_lid inp = 0) (snd (read_delta inp s))"
    using assms(1) by (simp add: lid_stop_due_def)
  from tick_dispatch [OF this]
  have t: "tick inp s = Inr ?s'"
    using assms by (simp add: dispatch_def custom_create_def create_cancel_def)
  have keep: "main_state ?s' = MODE_CUSTOM_MENU" "create_state ?s' = C_CREATE_START"
    "current_program ?s' = current_program s" "heap ?s' = heap s" "slot_steps ?s' = slot_steps s"
    "saved_programs ?s' = saved_programs s" "uv ?s' = uv s" "c_start_ts ?s' = c_start_ts s"
    by (simp_all add: slot_steps_def cur_prog_def)
  have run: "\<exists>s''. tick inp2 ?s' = Inr s'' \<and> main_state s'' = MODE_CUSTOM_MENU \<and>
          c_start_ts s'' = Some (in_clock inp2) \<and> step_duty st = Inr (uv s'') \<and>
          get_duration_sec st = Inr (c_run_duration_sec s'') \<and> slot_steps s'' = Some (st # sts)"
    if h: "custom_menu_idx s = C_MENU_CREATE" "c_start_ts s = None" "run_state s \<noteq> C_RUN_DONE"
      "load_state s = - 1" "slot_steps s = Some (st # sts)" "whole_step st"
      "in_enc inp < in_enc inp2" "in_btn inp2 = Tap" "in_lid inp2 \<noteq> 0"
  proof -
    have a: "main_state ?s' = MODE_CUSTOM_MENU" "c_start_ts ?s' = None" "run_state ?s' \<noteq> C_RUN_DONE"
      "load_state ?s' = - 1" "custom_menu_idx ?s' = C_MENU_CREATE" "last_enc ?s' < in_enc inp2"
      "prog_steps (cur_prog ?s') = Some (st # sts)"
      using h by (simp_all add: slot_steps_def cur_prog_def read_delta_snd)
    from nav_run_starts [OF a(1-6) h(8,9) a(7) h(6)] obtain s'' where
      "tick inp2 ?s' = Inr s''" "main_state s'' = MODE_CUSTOM_MENU"
      "c_start_ts s'' = Some (in_clock inp2)" "step_duty st = Inr (uv s'')"
      "get_duration_sec st = Inr (c_run_duration_sec s'')" "cur_prog s'' = cur_prog ?s'"
      by blast
    then show ?thesis using a(7) by (auto simp: slot_steps_def)
  qed
  have last: "custom_menu_idx s = C_MENU_CREATE \<and> c_start_ts s = None \<and> run_state s \<noteq> C_RUN_DONE \<and>
       load_state s = - 1 \<and> slot_steps s = Some (st # sts) \<and> whole_step st \<and>
       in_enc inp < in_enc inp2 \<and> in_btn inp2 = Tap \<and> in_lid inp2 \<noteq> 0 \<longrightarrow>
       (\<exists>s''. tick inp2 ?s' = Inr s'' \<and> main_state s'' = MODE_CUSTOM_MENU \<and>
          c_start_ts s'' = Some (in_clock inp2) \<and> step_duty st = Inr (uv s'') \<and>
          get_duration_sec st = Inr (c_run_duration_sec s'') \<and> slot_steps s'' = Some (st # sts))"
    by (intro impI, elim conjE) (rule run)
  show ?thesis
    by (rule exI [of _ ?s'], intro conjI; (rule t keep last))
qed

theorem wizard_cancel_keeps_program_witness:
  "\<exists>s'. tick (pass 1 2 800 Hold) (projr (ticks example_authoring (init example_boot))) = Inr s' \<and>
     main_state s' = MODE_CUSTOM_MENU \<and> create_state s' = C_CREATE_START \<and>
     slot_steps s' = Some [mk_step 0 60 50] \<and>
     (\<exists>s''. tick (pass 1 3 900 Tap) s' = Inr s'' \<and> main_state s'' = MODE_CUSTOM_MENU \<and>
        c_start_ts s'' = Some 900 \<and> uv s'' = 1 / 2 \<and> c_run_duration_sec s'' = 60)"
proof -
  let ?s = "projr (ticks example_authoring (init example_boot))"
  have h: "main_state ?s = MODE_CUSTOM_CREATE" "in_btn (pass 1 2 800 Hold) = Hold"
    "py_nth custom_menu_items (custom_menu_idx ?s) = Inr ''Create New''"
    by code_simp+
  have g: "custom_menu_idx ?s = C_MENU_CREATE" "c_start_ts ?s = None" "run_state ?s \<noteq> C_RUN_DONE"
    "load_state ?s = - 1" "slot_steps ?s = Some (mk_step 0 60 50 # [])" "whole_step (mk_step 0 60 50)"
    "in_enc (pass 1 2 800 Hold) < in_enc (pass 1 3 900 Tap)" "in_btn (pass 1 3 900 Tap) = Tap"
    "in_lid (pass 1 3 900 Tap) \<noteq> 0" "in_clock (pass 1 3 900 Tap) = 900"
    "step_duty (mk_step 0 60 50) = Inr (1 / 2)" "get_duration_sec (mk_step 0 60 50) = Inr 60"
    by code_simp+
  from wizard_cancel_keeps_program [OF h, where st = "mk_step 0 60 50" and sts = "[]"
      and ?inp2.0 = "pass 1 3 900 Tap"] g
  show ?thesis by auto
qed

text \<open>
  The example: after the first step is authored the wizard is cancelled; the slot still holds
  the step, and turning to ``Run Program'' and pressing runs it at duty 1/2.
\<close>

theorem abandoned_program_runs:
  "map_sum id main_state (ticks example_authoring (init example_boot)) = Inr MODE_CUSTOM_CREATE \<and>
   map_sum id slot_steps (ticks example_authoring (init example_boot)) = Inr (Some [mk_step 0 60 50]) \<and>
   map_sum id outcome (ticks (example_authoring @ [pass 1 2 800 Hold]) (init example_boot))
     = Inr (MODE_CUSTOM_MENU, S_IDLE, False, 0) \<and>
   map_sum id slot_steps (ticks (example_authoring @ [pass 1 2 800 Hold]) (init example_boot))
     = Inr (Some [mk_step 0 60 50]) \<and>
   map_sum id outcome (ticks (example_authoring @ [pass 1 2 800 Hold, pass 1 3 900 Tap]) (init example_boot))
     = Inr (MODE_CUSTOM_MENU, S_IDLE, True, 1 / 2)"
  by code_simp

subsection \<open>The output is on only during a run\<close>

lemma uv_inv_head [simp]: "uv_inv (indicator l t (snd (read_delta inp s))) = uv_inv s"
  by (simp add: uv_inv_def)

lemma uv_inv_init: "uv_inv (init b)"
  by (simp add: uv_inv_def init_def Let_def)

lemma uv_inv_lid_stop: "uv_inv (lid_stop s)"
  by (simp add: uv_inv_def lid_stop_def)

lemma uv_inv_main_menu:
  "uv_inv s \<Longrightarrow> main_state s = MODE_MAIN_MENU \<Longrightarrow> main_menu d l inp s = Inr s' \<Longrightarrow> uv_inv s'"
  by (auto simp: uv_inv_def main_menu_def Let_def split: if_splits)

lemma uv_inv_simple:
  "uv_inv s \<Longrightarrow> main_state s = MODE_SIMPLE \<Longrightarrow> simple d l inp s = Inr s' \<Longrightarrow> uv_inv s'"
  by (cases "simple_state s")
     (auto simp: uv_inv_def simple_def simple_idle_def simple_set_time_unit_def simple_set_time_def
        simple_set_intens_def simple_running_def simple_done_def turn_time_unit_def
        simple_cancel_def simple_finish_def Let_def bind_r_Inr_iff
        split: if_splits option.splits)

lemma custom_load_sig:
  "custom_load d b s = Inr s' \<Longrightarrow>
   main_state s' = main_state s \<and> simple_state s' = simple_state s \<and>
   c_start_ts s' = c_start_ts s \<and> uv s' = uv s"
  by (cases b)
     (auto simp: custom_load_def load_turn_def load_confirm_def Let_def bind_r_Inr_iff
        split: if_splits)

lemma start_step_sig:
  "start_step inp s = Inr s' \<Longrightarrow>
   main_state s' = main_state s \<and> simple_state s' = simple_state s \<and> c_start_ts s' \<noteq> None"
  by (auto simp: start_step_def bind_r_Inr_iff)

lemma custom_advance_sig:
  "custom_advance inp s = Inr s' \<Longrightarrow>
   main_state s' = main_state s \<and> simple_state s' = simple_state s \<and>
   (c_start_ts s' \<noteq> None \<or> uv s' = 0)"
  by (auto simp: custom_advance_def custom_finish_def Let_def bind_r_Inr_iff
      split: if_splits dest!: start_step_sig)

lemma custom_run_sig:
  "custom_run t0 inp s = Inr s' \<Longrightarrow> c_start_ts s = Some t0 \<Longrightarrow>
   simple_state s' = simple_state s \<and> (c_start_ts s' \<noteq> None \<or> uv s' = 0)"
  by (auto simp: custom_run_def custom_cancel_def Let_def bind_r_Inr_iff
      split: if_splits dest!: custom_advance_sig)

lemma custom_done_sig:
  "custom_done inp s = Inr s' \<Longrightarrow>
   simple_state s' = simple_state s \<and> c_start_ts s' = c_start_ts s \<and> uv s' = uv s"
  by (auto simp: custom_done_def bind_r_Inr_iff split: if_splits)

lemma nav_confirm_sig:
  "nav_confirm inp s = Inr s' \<Longrightarrow>
   simple_state s' = simple_state s \<and>
   ((c_start_ts s' = c_start_ts s \<and> uv s' = uv s) \<or> c_start_ts s' \<noteq> None)"
  by (auto simp: nav_confirm_def new_program_def Let_def bind_r_Inr_iff
      split: if_splits dest!: start_step_sig)

lemma custom_nav_sig:
  "custom_nav d l inp s = Inr (skip, s') \<Longrightarrow>
   simple_state s' = simple_state s \<and>
   ((c_start_ts s' = c_start_ts s \<and> uv s' = uv s) \<or> c_start_ts s' \<noteq> None)"
  by (cases "in_btn inp")
     (auto simp: custom_nav_def Let_def bind_r_Inr_iff split: if_splits dest!: nav_confirm_sig)

lemma uv_inv_custom_menu:
  assumes "uv_inv s" and "main_state s = MODE_CUSTOM_MENU" and "custom_menu d l inp s = Inr s'"
  shows "uv_inv s'"
proof -
  have ns: "simple_state s \<noteq> S_RUNNING" using assms(1,2) by (auto simp: uv_inv_def)
  have off: "c_start_ts s = None \<Longrightarrow> uv s = 0" using assms(1) ns by (simp add: uv_inv_def)
  have "simple_state s' = simple_state s \<and> (c_start_ts s' \<noteq> None \<or> uv s' = 0)"
  proof (cases "c_start_ts s")
    case (Some t0)
    with assms(3) obtain s1 where a: "custom_run t0 inp s = Inr s1" "custom_load d (in_btn2 inp) s1 = Inr s'"
      by (auto simp: custom_menu_def bind_r_Inr_iff)
    from custom_run_sig [OF a(1) Some] custom_load_sig [OF a(2)] show ?thesis by auto
  next
    case None
    show ?thesis
    proof (cases "run_state s = C_RUN_DONE")
      case True
      with None assms(3) obtain s1 where a: "custom_done inp s = Inr s1" "custom_load d (in_btn2 inp) s1 = Inr s'"
        by (auto simp: custom_menu_def bind_r_Inr_iff)
      from custom_done_sig [OF a(1)] custom_load_sig [OF a(2)] off [OF None] show ?thesis by auto
    next
      case False
      show ?thesis
      proof (cases "load_state s = - 1")
        case True
        with None False assms(3) obtain skip s1 where
          a: "custom_nav d l inp s = Inr (skip, s1)" "(if skip then Inr s1 else custom_load d (in_btn2 inp) s1) = Inr s'"
          by (auto simp: custom_menu_def bind_r_Inr_iff)
        from a(2) have "simple_state s' = simple_state s1 \<and> c_start_ts s' = c_start_ts s1 \<and> uv s' = uv s1"
          using custom_load_sig [of d "in_btn2 inp" s1 s'] by (cases skip) auto
        with custom_nav_sig [OF a(1)] off [OF None] None show ?thesis by auto
      next
        case nl: False
        with None False assms(3) have "custom_load d (in_btn inp) s = Inr s'"
          by (simp add: custom_menu_def)
        from custom_load_sig [OF this] off [OF None] None show ?thesis by auto
      qed
    qed
  qed
  then show ?thesis using ns by (auto simp: uv_inv_def)
qed

lemma create_sig:
  "custom_create d inp s = Inr s' \<Longrightarrow>
   simple_state s' = simple_state s \<and> c_start_ts s' = c_start_ts s \<and> uv s' = uv s"
  by (cases "in_btn inp"; cases "create_state s")
     (auto simp: custom_create_def create_cancel_def create_confirm_def create_turn_def
        save_confirm_def set_cur_def turn_time_unit_def steps_shown_def Let_def bind_r_Inr_iff
        split: if_splits)

lemma uv_inv_create:
  assumes "uv_inv s" and "main_state s = MODE_CUSTOM_CREATE" and "custom_create d inp s = Inr s'"
  shows "uv_inv s'"
proof -
  have ns: "simple_state s \<noteq> S_RUNNING" using assms(1,2) by (auto simp: uv_inv_def)
  from create_sig [OF assms(3)] assms(1) ns show ?thesis by (auto simp: uv_inv_def)
qed

lemma uv_inv_tick:
  assumes "uv_inv s" and "tick inp s = Inr s'"
  shows "uv_inv s'"
proof (cases "lid_stop_due (in_lid inp = 0) (snd (read_delta inp s))")
  case True
  then have "s' = lid_stop (snd (read_delta inp s))"
    using assms(2) by (simp add: tick_def Let_def)
  then show ?thesis by (simp add: uv_inv_lid_stop)
next
  case False
  let ?s1 = "indicator (in_lid inp = 0) (in_now inp) (snd (read_delta inp s))"
  have d: "dispatch (fst (read_delta inp s)) (in_lid inp = 0) inp ?s1 = Inr s'"
    using tick_dispatch [OF False] assms(2) by simp
  have i: "uv_inv ?s1" using assms(1) by simp
  show ?thesis
  proof (cases "main_state ?s1")
    case MODE_MAIN_MENU
    then show ?thesis using d i uv_inv_main_menu [of ?s1] by (simp add: dispatch_def)
  next
    case MODE_SIMPLE
    then show ?thesis using d i uv_inv_simple [of ?s1] by (simp add: dispatch_def)
  next
    case MODE_CUSTOM_MENU
    then show ?thesis using d i uv_inv_custom_menu [of ?s1] by (simp add: dispatch_def)
  next
    case MODE_CUSTOM_CREATE
    then show ?thesis using d i uv_inv_create [of ?s1] by (simp add: dispatch_def)
  qed
qed

lemma reachable_uv_inv: "reachable s \<Longrightarrow> uv_inv s"
  by (induction rule: reachable.induct) (auto intro: uv_inv_init uv_inv_tick)

lemma ticks_append: "ticks (xs @ ys) s = bind_r (ticks xs s) (ticks ys)"
  by (induction xs arbitrary: s) (simp_all add: bind_r_def split: sum.splits)

lemma reachable_ticks: "reachable s \<Longrightarrow> ticks inps s = Inr s' \<Longrightarrow> reachable s'"
proof (induction inps arbitrary: s)
  case Nil
  then show ?case by simp
next
  case (Cons inp inps)
  from Cons.prems(2) obtain s1 where "tick inp s = Inr s1" "ticks inps s1 = Inr s'"
    by (auto simp: bind_r_Inr_iff)
  with Cons.IH Cons.prems(1) show ?case by (blast intro: reachable.pass)
qed

text \<open>
  C4. In every state the script reaches at the top of its loop, the UV output is off
  whenever simple mode is not in its running state and no custom run cursor exists. So a
  pass that ends with neither, whatever it started from (an expiry, a long-press cancel, the
  lid stop), ends with the output off.
\<close>

theorem uv_off_unless_running:
  assumes "reachable s"
  shows "(simple_state s \<noteq> S_RUNNING \<and> c_start_ts s = None \<longrightarrow> uv s = 0) \<and>
    (tick inp s = Inr s' \<and> simple_state s' \<noteq> S_RUNNING \<and> c_start_ts s' = None \<longrightarrow> uv s' = 0)"
proof (intro conjI impI)
  assume "simple_state s \<noteq> S_RUNNING \<and> c_start_ts s = None"
  then show "uv s = 0"
    using reachable_uv_inv [OF assms] by (simp add: uv_inv_def)
next
  assume a: "tick inp s = Inr s' \<and> simple_state s' \<noteq> S_RUNNING \<and> c_start_ts s' = None"
  then have "reachable s'" using assms by (blast intro: reachable.pass)
  from reachable_uv_inv [OF this] a show "uv s' = 0" by (simp add: uv_inv_def)
qed

theorem uv_off_unless_running_witness:
  "map_sum id outcome (ticks example_start (init example_boot))
     = Inr (MODE_CUSTOM_MENU, S_IDLE, True, 3 / 10) \<and>
   map_sum id uv (ticks (example_start @ [pass 1 0 10300 Released, pass 1 0 10800 Released,
       pass 1 0 20800 Released, pass 1 0 21300 Released]) (init example_boot)) = Inr 0 \<and>
   map_sum id uv (ticks (example_start @ [pass 1 0 5000 Hold]) (init example_boot)) = Inr 0"
proof -
  let ?a = "example_start @ [pass 1 0 10300 Released, pass 1 0 10800 Released,
       pass 1 0 20800 Released, pass 1 0 21300 Released]"
  let ?b = "example_start @ [pass 1 0 5000 Hold]"
  have r0: "map_sum id outcome (ticks example_start (init example_boot))
     = Inr (MODE_CUSTOM_MENU, S_IDLE, True, 3 / 10)"
    by code_simp
  have va: "map_sum id outcome (ticks ?a (init example_boot)) = Inr (MODE_CUSTOM_MENU, S_IDLE, False, 0)"
    by code_simp
  then obtain sa where sa: "ticks ?a (init example_boot) = Inr sa"
    by (cases "ticks ?a (init example_boot)") auto
  have ra: "reachable sa" by (rule reachable_ticks [OF reachable.boot sa])
  have ha: "simple_state sa \<noteq> S_RUNNING \<and> c_start_ts sa = None"
    using va sa by (simp add: outcome_def)
  have ua: "uv sa = 0" using uv_off_unless_running [OF ra] ha by blast
  from r0 obtain s0 where s0: "ticks example_start (init example_boot) = Inr s0"
    by (cases "ticks example_start (init example_boot)") auto
  have r0': "reachable s0" by (rule reachable_ticks [OF reachable.boot s0])
  have vb: "map_sum id outcome (ticks ?b (init example_boot)) = Inr (MODE_MAIN_MENU, S_IDLE, False, 0)"
    by code_simp
  then obtain sb where sb: "ticks ?b (init example_boot) = Inr sb"
    by (cases "ticks ?b (init example_boot)") auto
  have tb: "tick (pass 1 0 5000 Hold) s0 = Inr sb"
    using sb s0 by (auto simp: ticks_append bind_r_Inr_iff)
  have hb: "simple_state sb \<noteq> S_RUNNING \<and> c_start_ts sb = None"
    using vb sb by (simp add: outcome_def)
  have ub: "uv sb = 0" using uv_off_unless_running [OF r0', of "pass 1 0 5000 Hold" sb] tb hb by blast
  show ?thesis using r0 sa ua sb ub by simp
qed

subsection \<open>The loaded program and the store\<close>






lemma slot_inv_head [simp]: "slot_inv (indicator l t (snd (read_delta inp s))) = slot_inv s"
  by (simp add: slot_inv_def)

lemma store_contents_head [simp]:
  "store_contents (indicator l t (snd (read_delta inp s))) = store_contents s"
  by (simp add: store_contents_def)





























text \<open>
  After the load of the example the slot holds address 1, the address in the store: slot and
  store entry are one dict.
\<close>

lemma loaded_slot_is_the_stored_dict:
  "map_sum id saved_programs (ticks example_load (init example_boot)) = Inr [1] \<and>
   map_sum id current_program (ticks example_load (init example_boot)) = Inr 1 \<and>
   map_sum id store_contents (ticks example_load (init example_boot))
     = Inr [mk_program ''P-01'' 2 [mk_step 0 10 30, mk_step 2 500 90]]"
  by code_simp

end
